theory Spec2Isabelle
  imports Complex_Main "HOL-Library.AList" "HOL-Library.Log_Nat"
begin

section \<open>Python text, integers and exceptions\<close>

text \<open>
  The backend of the ATS-MINI remote (\<^verbatim>\<open>backend.py\<close>) talks to the radio over a serial
  line and parses its telemetry; \<^verbatim>\<open>screenshot.py\<close> is the standalone capture script.
  Both are embedded here function by function.

  Python \<^verbatim>\<open>str\<close> is modelled as \<^typ>\<open>string\<close>: a list of code points below 256 (the wire
  protocol is ASCII; the classifications below follow Python on all of Latin-1).
  Python \<^verbatim>\<open>int\<close> is \<^typ>\<open>int\<close>. An exception is a value of \<open>exn\<close>.
\<close>

datatype exn =
    RuntimeError string
  | ValueError string
  | TypeError string
  | AttributeError string
  | OverflowError string
  | SerialException string
  | PortNotOpenError
  | BinasciiError string

text \<open>\<^verbatim>\<open>str(e)\<close> of an exception: its message.\<close>

fun exn_str :: "exn \<Rightarrow> string" where
  "exn_str (RuntimeError m) = m"
| "exn_str (ValueError m) = m"
| "exn_str (TypeError m) = m"
| "exn_str (AttributeError m) = m"
| "exn_str (OverflowError m) = m"
| "exn_str (SerialException m) = m"
| "exn_str PortNotOpenError = ''Attempting to use a port that is not open''"
| "exn_str (BinasciiError m) = m"

text \<open>\<^verbatim>\<open>str.isspace\<close> on one code point: TAB..CR, FS..US, space, NEL and NBSP.\<close>

definition is_space :: "char \<Rightarrow> bool" where
  "is_space c = (let n = (of_char c :: nat) in
     (9 \<le> n \<and> n \<le> 13) \<or> (28 \<le> n \<and> n \<le> 32) \<or> n = 133 \<or> n = 160)"

text \<open>\<^verbatim>\<open>s.strip()\<close>: whitespace removed at both ends.\<close>

definition strip :: "string \<Rightarrow> string" where
  "strip s = rev (dropWhile is_space (rev (dropWhile is_space s)))"

text \<open>\<^verbatim>\<open>s.split(sep)\<close> for a one-character separator: never an empty list.\<close>

fun split_sep :: "char \<Rightarrow> string \<Rightarrow> string list" where
  "split_sep sep [] = [[]]"
| "split_sep sep (c # cs) =
     (if c = sep then [] # split_sep sep cs
      else (case split_sep sep cs of [] \<Rightarrow> [[c]] | p # ps \<Rightarrow> (c # p) # ps))"

text \<open>
  \<^verbatim>\<open>s.upper()\<close>. ASCII and Latin-1 lower-case letters move down by 32; the sharp s
  becomes \<^verbatim>\<open>SS\<close>. The micro sign and y-diaeresis have upper-case forms beyond code point
  255, which this alphabet cannot hold: they are left as they are (no upper-cased text
  containing them equals an ASCII word either way).
\<close>

definition upper_char :: "char \<Rightarrow> string" where
  "upper_char c = (let n = (of_char c :: nat) in
     if 97 \<le> n \<and> n \<le> 122 then [char_of (n - 32)]
     else if n = 223 then ''SS''
     else if 224 \<le> n \<and> n \<le> 254 \<and> n \<noteq> 247 then [char_of (n - 32)]
     else [c])"

definition upper :: "string \<Rightarrow> string" where
  "upper s = concat (map upper_char s)"

text \<open>\<^verbatim>\<open>sub in s\<close> for strings.\<close>

fun contains :: "string \<Rightarrow> string \<Rightarrow> bool" where
  "contains sub [] = (sub = [])"
| "contains sub (c # cs) = (take (length sub) (c # cs) = sub \<or> contains sub cs)"

text \<open>\<^verbatim>\<open>sep.join(xs)\<close>.\<close>

fun join :: "string \<Rightarrow> string list \<Rightarrow> string" where
  "join sep [] = []"
| "join sep [x] = x"
| "join sep (x # y # ys) = x @ sep @ join sep (y # ys)"

subsection \<open>Decimal integers\<close>

definition is_digit :: "char \<Rightarrow> bool" where
  "is_digit c = (let n = (of_char c :: nat) in 48 \<le> n \<and> n \<le> 57)"

definition digit_val :: "char \<Rightarrow> nat" where
  "digit_val c = of_char c - 48"

definition digit_char :: "nat \<Rightarrow> char" where
  "digit_char d = char_of (48 + d)"

text \<open>
  The digits of \<^verbatim>\<open>int(s)\<close> after the first one: digits, each optionally preceded by one
  underscore. The flag says that the previous character was an underscore.
\<close>

fun int_digits :: "nat \<Rightarrow> bool \<Rightarrow> string \<Rightarrow> nat option" where
  "int_digits acc us [] = (if us then None else Some acc)"
| "int_digits acc us (c # cs) =
     (if is_digit c then int_digits (10 * acc + digit_val c) False cs
      else if c = CHR ''_'' \<and> \<not> us then int_digits acc True cs
      else None)"

definition digitpart :: "string \<Rightarrow> nat option" where
  "digitpart s = (case s of [] \<Rightarrow> None
     | c # cs \<Rightarrow> if is_digit c then int_digits (digit_val c) False cs else None)"

text \<open>
  The interpreter's limit on conversions between \<^verbatim>\<open>int\<close> and \<^verbatim>\<open>str\<close>, at its default
  (\<^verbatim>\<open>sys.get_int_max_str_digits()\<close>): \<^verbatim>\<open>int(s)\<close> raises \<^verbatim>\<open>ValueError\<close> for more digits,
  and so does \<^verbatim>\<open>str(n)\<close>.
\<close>

definition int_max_str_digits :: nat where
  "int_max_str_digits = 4300"

text \<open>
  \<^verbatim>\<open>int(s)\<close> for a string, base 10: surrounding whitespace, one optional sign, a digit
  part of at most \<open>int_max_str_digits\<close> digits (zeros count, underscores do not). \<open>None\<close>
  is the \<^verbatim>\<open>ValueError\<close>.
\<close>

definition int_body :: "string \<Rightarrow> nat option" where
  "int_body s = (if int_max_str_digits < length (filter is_digit s) then None else digitpart s)"

definition py_int :: "string \<Rightarrow> int option" where
  "py_int s = (case strip s of [] \<Rightarrow> None
     | c # cs \<Rightarrow>
         if c = CHR ''-'' then map_option (\<lambda>n. - int n) (int_body cs)
         else if c = CHR ''+'' then map_option int (int_body cs)
         else map_option int (int_body (c # cs)))"

text \<open>The decimal digits of an integer.\<close>

fun str_nat :: "nat \<Rightarrow> string" where
  "str_nat n = (if n < 10 then [digit_char n] else str_nat (n div 10) @ [digit_char (n mod 10)])"

declare str_nat.simps [simp del]

definition decimal :: "int \<Rightarrow> string" where
  "decimal i = (if i < 0 then CHR ''-'' # str_nat (nat (- i)) else str_nat (nat i))"

text \<open>\<^verbatim>\<open>str(n)\<close> for an integer, also as an f-string field prints it: an integer of more
  than \<open>int_max_str_digits\<close> digits raises.\<close>

definition str_limit_error :: exn where
  "str_limit_error = ValueError (''Exceeds the limit ('' @ str_nat int_max_str_digits
     @ '' digits) for integer string conversion; use sys.set_int_max_str_digits() to increase the limit'')"

definition str_int :: "int \<Rightarrow> exn + string" where
  "str_int i = (if 10 ^ int_max_str_digits \<le> \<bar>i\<bar> then Inl str_limit_error else Inr (decimal i))"

text \<open>
  \<^verbatim>\<open>repr(s)\<close> of a string, as it appears (cut after 200 characters) in the message of a
  failed \<^verbatim>\<open>int(s)\<close>: quoted with single quotes unless the text has a single quote and no double quote; backslash,
  the quote and the control characters escaped, unprintable code points as \<^verbatim>\<open>\xNN\<close>.
\<close>

definition hex_digit :: "nat \<Rightarrow> char" where
  "hex_digit d = (if d < 10 then char_of (48 + d) else char_of (87 + d))"

definition repr_char :: "char \<Rightarrow> char \<Rightarrow> string" where
  "repr_char quote c = (let n = (of_char c :: nat) in
     if c = quote \<or> n = 92 then [CHR 0x5C, c]
     else if n = 9 then [CHR 0x5C, CHR ''t'']
     else if n = 10 then [CHR 0x5C, CHR ''n'']
     else if n = 13 then [CHR 0x5C, CHR ''r'']
     else if n < 32 \<or> (127 \<le> n \<and> n \<le> 160) \<or> n = 173
       then [CHR 0x5C, CHR ''x'', hex_digit (n div 16), hex_digit (n mod 16)]
     else [c])"

definition repr_str :: "string \<Rightarrow> string" where
  "repr_str s = (let quote = (if CHR 0x27 \<in> set s \<and> CHR 0x22 \<notin> set s then CHR 0x22 else CHR 0x27)
     in quote # concat (map (repr_char quote) s) @ [quote])"

definition int_literal_error :: "string \<Rightarrow> exn" where
  "int_literal_error s =
     ValueError (''invalid literal for int() with base 10: '' @ take 200 (repr_str s))"

definition digits_limit_error :: "nat \<Rightarrow> exn" where
  "digits_limit_error n = ValueError (''Exceeds the limit ('' @ str_nat int_max_str_digits
     @ '' digits) for integer string conversion: value has '' @ str_nat n
     @ '' digits; use sys.set_int_max_str_digits() to increase the limit'')"

text \<open>
  The \<^verbatim>\<open>ValueError\<close> of a failed \<^verbatim>\<open>int(s)\<close>: after the sign, a well-formed run of digits
  and underscores with too many digits is refused for its length, whatever follows it;
  anything else is an invalid literal.
\<close>

definition int_error :: "string \<Rightarrow> exn" where
  "int_error s =
     (let t = strip s;
          body = (case t of [] \<Rightarrow> []
                  | c # cs \<Rightarrow> if c = CHR ''-'' \<or> c = CHR ''+'' then cs else t);
          run = takeWhile (\<lambda>c. is_digit c \<or> c = CHR ''_'') body;
          n = length (filter is_digit run)
      in if digitpart run \<noteq> None \<and> int_max_str_digits < n then digits_limit_error n
         else int_literal_error s)"

section \<open>Floating point\<close>

text \<open>
  A Python \<^verbatim>\<open>float\<close> is an IEEE-754 binary64 value. A finite one is represented by the
  rational number it denotes; the negative zero, the infinities and the NaN are separate
  constructors. \<open>round_double\<close> rounds a rational to the nearest value with a 53-bit
  significand (ties to even), with the gradual underflow of the format; the overflow
  test is made by its callers.
\<close>

datatype pyfloat = Finite rat | NegZero | PosInf | NegInf | NaN

definition round_half_even :: "rat \<Rightarrow> int" where
  "round_half_even x = (let f = \<lfloor>x\<rfloor>; r = x - of_int f in
     if r < 1 / 2 then f else if 1 / 2 < r then f + 1 else if even f then f else f + 1)"

text \<open>\<open>ilog2 x\<close> is the exponent \<open>e\<close> with \<open>2^e \<le> |x| < 2^(e+1)\<close>, for \<open>x \<noteq> 0\<close>.\<close>

definition ilog2 :: "rat \<Rightarrow> int" where
  "ilog2 x = (let (p, q) = quotient_of \<bar>x\<bar>; e = bitlen p - bitlen q in
     if 2 powi e \<le> \<bar>x\<bar> then e else e - 1)"

definition round_double :: "rat \<Rightarrow> rat" where
  "round_double x = (if x = 0 then 0 else
     let q = max (ilog2 x) (- 1022) - 52 in of_int (round_half_even (x / 2 powi q)) * 2 powi q)"

text \<open>The float nearest to a real result: overflow gives an infinity, a negative result
  that rounds to zero gives the negative zero.\<close>

definition to_float :: "rat \<Rightarrow> pyfloat" where
  "to_float r = (let y = round_double r in
     if 2 ^ 1024 \<le> \<bar>y\<bar> then (if r < 0 then NegInf else PosInf)
     else if y = 0 \<and> r < 0 then NegZero
     else Finite y)"

text \<open>
  The conversion of an \<^verbatim>\<open>int\<close> operand of \<^verbatim>\<open>/\<close> to a float: an integer that would round
  to \<open>2^1024\<close> or beyond raises \<^verbatim>\<open>OverflowError\<close>.
\<close>

definition float_of_int :: "int \<Rightarrow> exn + pyfloat" where
  "float_of_int n = (if 2 ^ 1024 - 2 ^ 970 \<le> \<bar>n\<bar>
     then Inl (OverflowError ''int too large to convert to float'')
     else Inr (Finite (round_double (of_int n))))"

text \<open>\<open>x * c\<close> and \<open>x / c\<close> for a float \<open>x\<close> and a finite positive float constant \<open>c\<close>.\<close>

definition fmul :: "pyfloat \<Rightarrow> rat \<Rightarrow> pyfloat" where
  "fmul x c = (case x of Finite r \<Rightarrow> to_float (r * c) | _ \<Rightarrow> x)"

definition fdiv :: "pyfloat \<Rightarrow> rat \<Rightarrow> pyfloat" where
  "fdiv x c = (case x of Finite r \<Rightarrow> to_float (r / c) | _ \<Rightarrow> x)"

text \<open>\<^verbatim>\<open>s.zfill(w)\<close> on a digit string.\<close>

definition zfill :: "nat \<Rightarrow> string \<Rightarrow> string" where
  "zfill w s = replicate (w - length s) CHR ''0'' @ s"

text \<open>
  A non-negative count \<open>m\<close> of units of \<open>10^-prec\<close> written in fixed notation with \<open>prec\<close>
  fractional digits (\<open>prec > 0\<close>), with a minus sign if \<open>neg\<close>.
\<close>

definition fixed_str :: "bool \<Rightarrow> nat \<Rightarrow> nat \<Rightarrow> string" where
  "fixed_str neg prec m = (if neg then ''-'' else []) @ str_nat (m div 10 ^ prec) @ ''.''
     @ zfill prec (str_nat (m mod 10 ^ prec))"

text \<open>
  The format specification \<^verbatim>\<open>.<prec>f\<close> (\<open>prec > 0\<close>): the exact value of the float rounded
  to \<open>prec\<close> decimals, ties to even; the sign is kept when the digits are all zero.
\<close>

definition format_f :: "nat \<Rightarrow> pyfloat \<Rightarrow> string" where
  "format_f prec x = (case x of
       Finite r \<Rightarrow> fixed_str (r < 0) prec (nat (round_half_even (\<bar>r\<bar> * 10 ^ prec)))
     | NegZero \<Rightarrow> fixed_str True prec 0
     | PosInf \<Rightarrow> ''inf''
     | NegInf \<Rightarrow> ''-inf''
     | NaN \<Rightarrow> ''nan'')"

text \<open>
  \<^verbatim>\<open>round(x, 3)\<close>: the float nearest to the value rounded to three decimals (ties to
  even on the exact value); the sign of a zero result and the non-finite values are kept.
\<close>

definition round3 :: "pyfloat \<Rightarrow> pyfloat" where
  "round3 x = (case x of
       Finite r \<Rightarrow> (let m = round_half_even (r * 1000) in
          if m = 0 then (if r < 0 then NegZero else Finite 0) else to_float (of_int m / 1000))
     | _ \<Rightarrow> x)"

text \<open>
  \<^verbatim>\<open>float(s)\<close> for a string: surrounding whitespace, an optional sign, and then
  \<^verbatim>\<open>inf\<close>, \<^verbatim>\<open>infinity\<close> or \<^verbatim>\<open>nan\<close> in any case, or a decimal number (digit parts around
  an optional point, at least one of them present) with an optional exponent. \<open>None\<close> is
  the \<^verbatim>\<open>ValueError\<close>. The value is rounded to the nearest float.
\<close>

definition split_at :: "(char \<Rightarrow> bool) \<Rightarrow> string \<Rightarrow> string \<times> string option" where
  "split_at P s = (case dropWhile (\<lambda>c. \<not> P c) s of
       [] \<Rightarrow> (s, None)
     | _ # rest \<Rightarrow> (takeWhile (\<lambda>c. \<not> P c) s, Some rest))"

definition float_exponent :: "string option \<Rightarrow> int option" where
  "float_exponent ex = (case ex of None \<Rightarrow> Some 0
     | Some [] \<Rightarrow> None
     | Some (c # cs) \<Rightarrow>
         if c = CHR ''-'' then map_option (\<lambda>n. - int n) (digitpart cs)
         else if c = CHR ''+'' then map_option int (digitpart cs)
         else map_option int (digitpart (c # cs)))"

definition float_mantissa :: "string \<Rightarrow> (nat \<times> nat) option" where
  "float_mantissa m = (case split_at (\<lambda>c. c = CHR ''.'') m of
       (ip, None) \<Rightarrow> map_option (\<lambda>n. (n, 0)) (digitpart ip)
     | (ip, Some fp) \<Rightarrow>
         if ip = [] \<and> fp = [] then None
         else (case (if ip = [] then Some 0 else digitpart ip,
                     if fp = [] then Some 0 else digitpart fp) of
                 (Some a, Some b) \<Rightarrow>
                   (let k = length (filter is_digit fp) in Some (a * 10 ^ k + b, k))
               | _ \<Rightarrow> None))"

definition py_float :: "string \<Rightarrow> pyfloat option" where
  "py_float s = (let t = strip s;
       neg = (t \<noteq> [] \<and> hd t = CHR ''-'');
       body = (if t \<noteq> [] \<and> (hd t = CHR ''-'' \<or> hd t = CHR ''+'') then tl t else t)
     in if upper body = ''INF'' \<or> upper body = ''INFINITY'' then Some (if neg then NegInf else PosInf)
        else if upper body = ''NAN'' then Some NaN
        else (case split_at (\<lambda>c. c = CHR ''e'' \<or> c = CHR ''E'') body of (m, ex) \<Rightarrow>
          (case (float_mantissa m, float_exponent ex) of
             (Some (d, k), Some e) \<Rightarrow>
               if d = 0 then Some (if neg then NegZero else Finite 0)
               else Some (to_float ((if neg then - 1 else 1) * of_nat d * 10 powi (e - int k)))
           | _ \<Rightarrow> None)))"

section \<open>The frequency formatter\<close>

text \<open>
  \<^verbatim>\<open>format_frequency(freq_khz, bfo_hz, mode)\<close> takes whatever its caller passes: the
  arguments are dynamically typed values, here \<^verbatim>\<open>None\<close>, an integer or a string.
\<close>

datatype pyval = PNone | PInt int | PStr string

text \<open>\<^verbatim>\<open>int(v)\<close>.\<close>

fun int_of :: "pyval \<Rightarrow> exn + int" where
  "int_of (PInt n) = Inr n"
| "int_of (PStr s) = (case py_int s of Some n \<Rightarrow> Inr n | None \<Rightarrow> Inl (int_error s))"
| "int_of PNone = Inl (TypeError
     (''int() argument must be a string, a bytes-like object or a real number, not ''
      @ [CHR 0x27] @ ''NoneType'' @ [CHR 0x27]))"

text \<open>\<^verbatim>\<open>str(v)\<close>, as an f-string field prints it.\<close>

fun str_of :: "pyval \<Rightarrow> exn + string" where
  "str_of PNone = Inr ''None''"
| "str_of (PInt n) = str_int n"
| "str_of (PStr s) = Inr s"

text \<open>\<^verbatim>\<open>mode.upper()\<close> after \<^verbatim>\<open>None\<close> has been replaced by the empty string.\<close>

fun mode_upper :: "pyval \<Rightarrow> exn + string" where
  "mode_upper PNone = Inr []"
| "mode_upper (PStr s) = Inr (upper s)"
| "mode_upper (PInt n) = Inl (AttributeError
     ([CHR 0x27] @ ''int'' @ [CHR 0x27] @ '' object has no attribute ''
      @ [CHR 0x27] @ ''upper'' @ [CHR 0x27]))"

text \<open>The body of the \<^verbatim>\<open>try\<close> block: \<open>Inl\<close> is an exception raised inside it.\<close>

definition format_frequency_try :: "pyval \<Rightarrow> pyval \<Rightarrow> pyval \<Rightarrow> exn + string" where
  "format_frequency_try freq_khz bfo_hz mode =
     (case mode_upper mode of Inl e \<Rightarrow> Inl e | Inr mm \<Rightarrow>
      if mm \<in> set [''USB'', ''LSB'', ''SSB''] then
        (case int_of freq_khz of Inl e \<Rightarrow> Inl e | Inr k \<Rightarrow>
         case int_of bfo_hz of Inl e \<Rightarrow> Inl e | Inr b \<Rightarrow>
         case float_of_int (k * 1000 + b) of Inl e \<Rightarrow> Inl e | Inr freq_hz \<Rightarrow>
           Inr (format_f 6 (fdiv freq_hz 1000000) @ '' MHz''))
      else
        (case int_of freq_khz of Inl e \<Rightarrow> Inl e | Inr k \<Rightarrow>
         case float_of_int k of Inl e \<Rightarrow> Inl e | Inr kf \<Rightarrow>
         let mhz = fdiv kf 1000 in
         if mm = ''FM'' then Inr (format_f 2 mhz @ '' MHz'')
         else if mm = ''AM'' then
           (if k < 1000 then
              (case str_int k of Inl e \<Rightarrow> Inl e | Inr digits \<Rightarrow> Inr (digits @ '' kHz''))
            else Inr (format_f 3 mhz @ '' MHz''))
         else Inr (format_f 3 mhz @ '' MHz'')))"

text \<open>
  \<^verbatim>\<open>format_frequency\<close>: the handler formats the raw value itself, and an exception of that
  formatting leaves the function.
\<close>

definition format_frequency :: "pyval \<Rightarrow> pyval \<Rightarrow> pyval \<Rightarrow> exn + string" where
  "format_frequency freq_khz bfo_hz mode =
     (case format_frequency_try freq_khz bfo_hz mode of
        Inr s \<Rightarrow> Inr s
      | Inl e \<Rightarrow>
          (case str_of freq_khz of
             Inl e2 \<Rightarrow> Inl e2
           | Inr raw \<Rightarrow> Inr (raw @ '' (raw)'')))"

section \<open>The telemetry parser\<close>

text \<open>
  A snapshot is the dictionary \<^verbatim>\<open>out\<close>: its items in insertion order. A value is
  \<^verbatim>\<open>None\<close> (\<open>Absent\<close>), an integer, a text or a float. \<^verbatim>\<open>out[k] = v\<close> is \<open>AList.update\<close>
  (replace in place, or append), \<^verbatim>\<open>out.get(k)\<close> is \<open>map_of\<close>.
\<close>

datatype attr = Absent | IntV int | TextV string | FloatV pyfloat

type_synonym snapshot = "(string \<times> attr) list"

definition setitems :: "(string \<times> attr) list \<Rightarrow> snapshot \<Rightarrow> snapshot" where
  "setitems kvs out = fold (\<lambda>(k, v). AList.update k v) kvs out"

text \<open>\<^verbatim>\<open>parts[i] if len(parts) > i else ""\<close>.\<close>

definition text_field :: "string list \<Rightarrow> nat \<Rightarrow> string" where
  "text_field parts i = (if i < length parts then parts ! i else [])"

text \<open>\<^verbatim>\<open>int(parts[i]) if len(parts) > i and parts[i] != "" else <default>\<close>: \<open>Inr None\<close>
  stands for the default, \<open>Inl\<close> for the \<^verbatim>\<open>ValueError\<close> of \<^verbatim>\<open>int\<close>.\<close>

definition int_field :: "string list \<Rightarrow> nat \<Rightarrow> exn + int option" where
  "int_field parts i =
     (if i < length parts \<and> parts ! i \<noteq> [] then
        (case py_int (parts ! i) of
           Some n \<Rightarrow> Inr (Some n)
         | None \<Rightarrow> Inl (int_error (parts ! i)))
      else Inr None)"

definition or_zero :: "int option \<Rightarrow> int" where
  "or_zero v = (case v of Some n \<Rightarrow> n | None \<Rightarrow> 0)"

definition or_absent :: "int option \<Rightarrow> attr" where
  "or_absent v = (case v of Some n \<Rightarrow> IntV n | None \<Rightarrow> Absent)"

text \<open>The literal \<^verbatim>\<open>1.702\<close>.\<close>

definition float_1_702 :: rat where
  "float_1_702 = round_double (1702 / 1000)"

text \<open>The voltage attribute; the bare \<^verbatim>\<open>except\<close> around \<^verbatim>\<open>float\<close> keeps the raw
  text.\<close>

definition voltage_attr :: "string list \<Rightarrow> attr" where
  "voltage_attr parts =
     (if 13 < length parts \<and> parts ! 13 \<noteq> [] then
        (case py_float (parts ! 13) of
           Some v_val \<Rightarrow> FloatV (round3 (fdiv (fmul v_val float_1_702) 1000))
         | None \<Rightarrow> TextV (parts ! 13))
      else Absent)"

text \<open>\<^verbatim>\<open>f"{v} <unit>" if v is not None else ""\<close>.\<close>

definition unit_str :: "int option \<Rightarrow> string \<Rightarrow> exn + string" where
  "unit_str v u = (case v of
       Some n \<Rightarrow> (case str_int n of Inl e \<Rightarrow> Inl e | Inr digits \<Rightarrow> Inr (digits @ '' '' @ u))
     | None \<Rightarrow> Inr [])"

text \<open>
  The \<^verbatim>\<open>try\<close> block of \<^verbatim>\<open>parse_monitor_line\<close>: the dictionary as it stands when the
  block ends, and the exception that ended it, if any. \<^verbatim>\<open>freq_khz\<close> and \<^verbatim>\<open>bfo_hz\<close> are
  both converted before either is stored. The three f-strings at the end can raise in
  their integer fields.
\<close>

definition parse_try :: "string list \<Rightarrow> snapshot \<times> exn option" where
  "parse_try parts =
     (let out = setitems
            [(''raw_parts_count'', IntV (int (length parts))),
             (''fw_version'', TextV (text_field parts 0))] []
      in
      case int_field parts 1 of Inl e \<Rightarrow> (out, Some e) | Inr f \<Rightarrow>
      case int_field parts 2 of Inl e \<Rightarrow> (out, Some e) | Inr b \<Rightarrow>
      let freq_khz = or_zero f;
          bfo_hz = or_zero b;
          mode = text_field parts 5;
          out = setitems
            [(''currentFrequency_raw'', IntV freq_khz),
             (''currentBFO'', IntV bfo_hz),
             (''bandCal'', TextV (text_field parts 3)),
             (''bandName'', TextV (text_field parts 4)),
             (''mode'', TextV mode),
             (''stepIdx'', TextV (text_field parts 6)),
             (''bandwidthIdx'', TextV (text_field parts 7)),
             (''agcIdx'', TextV (text_field parts 8))] out
      in
      case int_field parts 9 of Inl e \<Rightarrow> (out, Some e) | Inr volume \<Rightarrow>
      let out = setitems [(''volume'', or_absent volume)] out in
      case int_field parts 10 of Inl e \<Rightarrow> (out, Some e) | Inr rssi_raw \<Rightarrow>
      let out = setitems [(''rssi_raw'', or_absent rssi_raw)] out in
      case int_field parts 11 of Inl e \<Rightarrow> (out, Some e) | Inr snr_raw \<Rightarrow>
      let out = setitems
            [(''snr_raw'', or_absent snr_raw),
             (''tuningCapacitor'', TextV (text_field parts 12)),
             (''voltage'', voltage_attr parts),
             (''seqnum'', TextV (text_field parts 14))] out
      in
      case format_frequency (PInt freq_khz) (PInt bfo_hz) (PStr mode) of
        Inl e \<Rightarrow> (out, Some e) | Inr frequency \<Rightarrow>
      let out = setitems [(''frequency'', TextV frequency)] out in
      case unit_str rssi_raw ''dBuV'' of Inl e \<Rightarrow> (out, Some e) | Inr rssi \<Rightarrow>
      let out = setitems [(''rssi'', TextV rssi)] out in
      case unit_str snr_raw ''dB'' of Inl e \<Rightarrow> (out, Some e) | Inr snr \<Rightarrow>
      (setitems [(''snr'', TextV snr)] out, None))"

definition parse_monitor_line :: "string \<Rightarrow> snapshot" where
  "parse_monitor_line line =
     (case parse_try (map strip (split_sep CHR '','' line)) of
        (out, None) \<Rightarrow> out
      | (out, Some e) \<Rightarrow> AList.update ''parse_error'' (TextV (exn_str e)) out)"

section \<open>The serial link\<close>

text \<open>
  The module-level \<^verbatim>\<open>ser\<close> is \<^verbatim>\<open>None\<close> or a \<^verbatim>\<open>serial.Serial\<close> object: a \<open>handle option\<close>.
  The host and the device are the environment: which ports exist, whether an open or a
  close call raises, and what each \<^verbatim>\<open>readline\<close> returns.
\<close>

record handle =
  h_port :: string
  h_baud :: int
  is_open :: bool

record port_info =
  device :: string
  description :: "string option"
  manufacturer :: "string option"

record host =
  comports :: "port_info list"
  serial_open :: "string \<Rightarrow> int \<Rightarrow> exn option"
  close_raises :: bool

definition DEFAULT_BAUD :: int where
  "DEFAULT_BAUD = 112500"

definition FALLBACK_BAUD :: int where
  "FALLBACK_BAUD = 9600"

definition port_keywords :: "string list" where
  "port_keywords = [''USB'', ''CP210'', ''CH340'', ''FTDI'', ''UART'', ''CDC'', ''Silicon'', ''SiLabs'']"

text \<open>\<^verbatim>\<open>x or ""\<close> for an optional text.\<close>

definition or_empty :: "string option \<Rightarrow> string" where
  "or_empty x = (case x of Some s \<Rightarrow> s | None \<Rightarrow> [])"

definition port_matches :: "port_info \<Rightarrow> bool" where
  "port_matches p = (let desc = or_empty (description p) @ '' '' @ or_empty (manufacturer p)
     in list_ex (\<lambda>k. contains (upper k) (upper desc)) port_keywords)"

definition find_serial_port :: "port_info list \<Rightarrow> string option \<Rightarrow> string option" where
  "find_serial_port ports preferred =
     (if preferred \<noteq> None \<and> preferred \<noteq> Some [] then preferred
      else (case ports of [] \<Rightarrow> None
        | p0 # _ \<Rightarrow> (case find port_matches ports of
              Some p \<Rightarrow> Some (device p)
            | None \<Rightarrow> Some (device p0))))"

text \<open>\<^verbatim>\<open>ser.close()\<close> inside \<^verbatim>\<open>try ... except Exception: pass\<close>: a close that raises leaves
  the handle as it was.\<close>

definition close_handle :: "host \<Rightarrow> handle \<Rightarrow> handle" where
  "close_handle hst h = (if close_raises hst then h else h\<lparr>is_open := False\<rparr>)"

text \<open>
  \<^verbatim>\<open>open_serial(port, baud)\<close>: the new value of \<^verbatim>\<open>ser\<close>, the \<^verbatim>\<open>serial.Serial(port, baud)\<close>
  calls made, in order, and the handle returned or the exception raised.
\<close>

definition open_serial ::
  "host \<Rightarrow> handle option \<Rightarrow> string option \<Rightarrow> int
    \<Rightarrow> handle option \<times> (string \<times> int) list \<times> (exn + handle)" where
  "open_serial hst ser port baud =
     (let ser = map_option (close_handle hst) ser;
          port = (case port of None \<Rightarrow> find_serial_port (comports hst) None | Some p \<Rightarrow> Some p)
      in case port of
        None \<Rightarrow> (ser, [], Inl (RuntimeError
                    ''No serial ports found. Set ATS_PORT environment or pass --port.''))
      | Some p \<Rightarrow>
          (case serial_open hst p baud of
             None \<Rightarrow>
               (let s = \<lparr>h_port = p, h_baud = baud, is_open = True\<rparr>
                in (Some s, [(p, baud)], Inr s))
           | Some e \<Rightarrow>
               if baud = DEFAULT_BAUD then
                 (case serial_open hst p FALLBACK_BAUD of
                    None \<Rightarrow>
                      (let s = \<lparr>h_port = p, h_baud = FALLBACK_BAUD, is_open = True\<rparr>
                       in (Some s, [(p, baud), (p, FALLBACK_BAUD)], Inr s))
                  | Some e2 \<Rightarrow>
                      (ser, [(p, baud), (p, FALLBACK_BAUD)],
                       Inl (RuntimeError (''Failed to open serial on '' @ p @ '': '' @ exn_str e2))))
               else (ser, [(p, baud)], Inl e)))"

subsection \<open>Calls on the link\<close>

text \<open>
  What a function does to the link and to the locks is its list of events, in order.
  A \<^verbatim>\<open>readline\<close> returns nothing (\<open>NoData\<close>: the read timeout passed), the decoded text of
  the bytes read (\<open>Data\<close>; \<^verbatim>\<open>raw.decode(errors="ignore")\<close> cannot fail), or raises.
  \<open>Write\<close> carries the text whose encoding is written.
\<close>

datatype lock = SerialLock | DataLock

datatype event =
    Acquire lock
  | Release lock
  | ResetInput
  | Write string
  | Flush
  | Readline
  | Sleep nat

datatype read = NoData | Data string | ReadError string

record wire =
  reset_error :: "string option"
  write_error :: "string option"
  flush_error :: "string option"
  reads :: "read list"

definition endswith :: "string \<Rightarrow> string \<Rightarrow> bool" where
  "endswith s suffix = (length suffix \<le> length s \<and> drop (length s - length suffix) s = suffix)"

definition before :: "event list \<Rightarrow> event list \<times> 'a \<Rightarrow> event list \<times> 'a" where
  "before evs r = (evs @ fst r, snd r)"

text \<open>
  The response loop of \<^verbatim>\<open>send_serial_raw\<close>. Its argument is the list of the outcomes of
  the \<^verbatim>\<open>readline\<close> calls that begin before \<^verbatim>\<open>time.time() - t0\<close> reaches \<^verbatim>\<open>read_timeout\<close>:
  the loop test is true as long as one is left, and the end of the list is the timeout.
  Sleeps are in milliseconds.
\<close>

fun read_lines :: "int \<Rightarrow> read list \<Rightarrow> string list \<Rightarrow> event list \<times> string list" where
  "read_lines wait_lines [] lines = ([], lines)"
| "read_lines wait_lines (r # rs) lines =
     (case r of
        NoData \<Rightarrow> before [Readline, Sleep 10] (read_lines wait_lines rs lines)
      | ReadError m \<Rightarrow> ([Readline], lines)
      | Data raw \<Rightarrow>
          (let line = strip raw in
           if line \<noteq> [] then
             (let lines = lines @ [line] in
              if wait_lines \<le> int (length lines) then ([Readline], lines)
              else before [Readline] (read_lines wait_lines rs lines))
           else before [Readline] (read_lines wait_lines rs lines)))"

definition send_serial_raw ::
  "handle option \<Rightarrow> string \<Rightarrow> int \<Rightarrow> wire \<Rightarrow> event list \<times> (exn + string list)" where
  "send_serial_raw ser cmd wait_lines w =
     (case ser of
        None \<Rightarrow> ([], Inl (RuntimeError ''Serial port not opened''))
      | Some h \<Rightarrow>
          if \<not> is_open h then
            ([Acquire SerialLock, ResetInput, Release SerialLock], Inl PortNotOpenError)
          else (case reset_error w of
            Some m \<Rightarrow> ([Acquire SerialLock, ResetInput, Release SerialLock], Inl (SerialException m))
          | None \<Rightarrow>
              (let cmd_out = (if \<not> endswith cmd [CHR 0x0A] then cmd @ [CHR 0x0A] else cmd);
                   sent = [Acquire SerialLock, ResetInput, Write cmd_out]
               in case write_error w of
                 Some m \<Rightarrow> (sent @ [Release SerialLock], Inl (SerialException m))
               | None \<Rightarrow> (case flush_error w of
                   Some m \<Rightarrow> (sent @ [Flush, Release SerialLock], Inl (SerialException m))
                 | None \<Rightarrow>
                     (case read_lines wait_lines (reads w) [] of
                        (evs, lines) \<Rightarrow>
                          (sent @ [Flush] @ evs @ [Release SerialLock], Inr lines))))))"

section \<open>The reader loop\<close>

record monitor =
  latest_raw_line :: string
  monitor_parsed :: snapshot
  monitor_active :: bool
  monitor_requested :: bool

text \<open>The truth value of \<^verbatim>\<open>d.get(k)\<close>: a missing key gives \<^verbatim>\<open>None\<close>.\<close>

fun truthy :: "attr option \<Rightarrow> bool" where
  "truthy None = False"
| "truthy (Some Absent) = False"
| "truthy (Some (IntV n)) = (n \<noteq> 0)"
| "truthy (Some (TextV s)) = (s \<noteq> [])"
| "truthy (Some (FloatV x)) = (x \<noteq> Finite 0 \<and> x \<noteq> NegZero)"

definition publishable :: "snapshot \<Rightarrow> bool" where
  "publishable parsed = (parsed \<noteq> [] \<and>
     (truthy (map_of parsed ''currentFrequency_raw'') \<or> truthy (map_of parsed ''fw_version'')))"

text \<open>What the loop does with a line that is not empty.\<close>

definition on_line :: "string \<Rightarrow> monitor \<Rightarrow> monitor" where
  "on_line line st =
     (let st = st\<lparr>latest_raw_line := line\<rparr> in
      if CHR '','' \<in> set line then
        (let parsed = parse_monitor_line line in
         if publishable parsed then st\<lparr>monitor_parsed := parsed, monitor_active := True\<rparr>
         else st)
      else st)"

text \<open>
  One iteration of \<^verbatim>\<open>monitor_reader_thread\<close>, given the outcome of its \<^verbatim>\<open>readline\<close> (not
  consulted when there is no handle or the handle is closed).
\<close>

definition monitor_iteration :: "handle option \<Rightarrow> read \<Rightarrow> monitor \<Rightarrow> event list \<times> monitor" where
  "monitor_iteration ser r st =
     (case ser of
        None \<Rightarrow> ([Sleep 500], st)
      | Some h \<Rightarrow>
          (let pull = [Acquire SerialLock, Readline, Release SerialLock] in
           if \<not> is_open h then (pull @ [Sleep 10], st)
           else (case r of
             ReadError m \<Rightarrow> (pull @ [Sleep 10], st)
           | NoData \<Rightarrow> (pull, st)
           | Data raw \<Rightarrow>
               (let line = strip raw in
                if line = [] then (pull, st)
                else (pull @ [Acquire DataLock, Release DataLock], on_line line st)))))"

text \<open>The loop never returns; a run of it is any number of iterations.\<close>

fun monitor_run :: "handle option \<Rightarrow> read list \<Rightarrow> monitor \<Rightarrow> monitor" where
  "monitor_run ser [] st = st"
| "monitor_run ser (r # rs) st = monitor_run ser rs (snd (monitor_iteration ser r st))"

section \<open>The HTTP endpoints that use the link\<close>

text \<open>
  The JSON body of a response: the lines of a command, the hex text of a screenshot, or
  the error message sent with status 500.
\<close>

datatype response =
    CommandOk string "string list"
  | ScreenshotOk string
  | Failed string

text \<open>\<^verbatim>\<open>api_command\<close>: carriage returns and line feeds are removed from the command.\<close>

definition api_command :: "handle option \<Rightarrow> string \<Rightarrow> wire \<Rightarrow> event list \<times> response" where
  "api_command ser cmd w =
     (let cmd = filter (\<lambda>c. c \<noteq> CHR 0x0A) (filter (\<lambda>c. c \<noteq> CHR 0x0D) cmd) in
      case send_serial_raw ser cmd 4 w of
        (evs, Inr lines) \<Rightarrow> (evs, CommandOk cmd lines)
      | (evs, Inl e) \<Rightarrow> (evs, Failed (exn_str e)))"

text \<open>
  The accumulation loop of \<^verbatim>\<open>api_screenshot\<close>, on the outcomes of the \<^verbatim>\<open>readline\<close> calls
  that begin within its five seconds. A read that raises leaves the \<^verbatim>\<open>try\<close> block.
\<close>

fun accumulate :: "read list \<Rightarrow> string list \<Rightarrow> event list \<times> (exn + string list)" where
  "accumulate [] hex_chunks = ([], Inr hex_chunks)"
| "accumulate (r # rs) hex_chunks =
     (case r of
        NoData \<Rightarrow> before [Readline, Sleep 20] (accumulate rs hex_chunks)
      | ReadError m \<Rightarrow> ([Readline], Inl (SerialException m))
      | Data raw \<Rightarrow>
          (let line = strip raw in
           if line = [] then before [Readline] (accumulate rs hex_chunks)
           else (let hex_chunks = hex_chunks @ [line] in
             if 10000000 < length (concat hex_chunks) then ([Readline], Inr hex_chunks)
             else before [Readline] (accumulate rs hex_chunks))))"

text \<open>\<^verbatim>\<open>api_screenshot\<close>: the trigger command through \<^verbatim>\<open>send_serial_raw\<close> (its own reads
  are in \<open>w\<close>), then the accumulation on \<open>rs\<close>.\<close>

definition api_screenshot :: "handle option \<Rightarrow> wire \<Rightarrow> read list \<Rightarrow> event list \<times> response" where
  "api_screenshot ser w rs =
     (case send_serial_raw ser ''C'' 1 w of
        (evs, Inl e) \<Rightarrow> (evs, Failed (exn_str e))
      | (evs, Inr _) \<Rightarrow>
          (case accumulate rs [] of
             (evs2, Inl e) \<Rightarrow> (evs @ evs2, Failed (exn_str e))
           | (evs2, Inr hex_chunks) \<Rightarrow> (evs @ evs2, ScreenshotOk (join [CHR 0x0A] hex_chunks))))"

section \<open>The standalone capture script\<close>

text \<open>
  \<^verbatim>\<open>screenshot.py\<close>, from the chunks that its \<^verbatim>\<open>ser.read(4096)\<close> calls return (bytes are
  characters here): it reads until a chunk is empty, removes carriage returns and line
  feeds, decodes the hexadecimal text and writes the file, or prints the error and exits
  with status 1 before any file is opened.
\<close>

definition hex_value :: "char \<Rightarrow> nat option" where
  "hex_value c = (let n = (of_char c :: nat) in
     if 48 \<le> n \<and> n \<le> 57 then Some (n - 48)
     else if 65 \<le> n \<and> n \<le> 70 then Some (n - 55)
     else if 97 \<le> n \<and> n \<le> 102 then Some (n - 87)
     else None)"

fun hex_pairs :: "string \<Rightarrow> string option" where
  "hex_pairs [] = Some []"
| "hex_pairs [c] = None"
| "hex_pairs (a # b # cs) =
     (case (hex_value a, hex_value b, hex_pairs cs) of
        (Some h, Some l, Some bs) \<Rightarrow> Some (char_of (16 * h + l) # bs)
      | _ \<Rightarrow> None)"

text \<open>\<^verbatim>\<open>binascii.unhexlify\<close>.\<close>

definition unhexlify :: "string \<Rightarrow> exn + string" where
  "unhexlify s =
     (if odd (length s) then Inl (BinasciiError ''Odd-length string'')
      else (case hex_pairs s of
        Some bs \<Rightarrow> Inr bs
      | None \<Rightarrow> Inl (BinasciiError ''Non-hexadecimal digit found'')))"

datatype script_result = Saved string | Exit1

definition read_until_empty :: "string list \<Rightarrow> string" where
  "read_until_empty chunks = concat (takeWhile (\<lambda>chunk. chunk \<noteq> []) chunks)"

definition screenshot_script :: "string list \<Rightarrow> script_result" where
  "screenshot_script chunks =
     (let data = read_until_empty chunks;
          hex_str = filter (\<lambda>c. c \<noteq> CHR 0x0A) (filter (\<lambda>c. c \<noteq> CHR 0x0D) data)
      in case unhexlify hex_str of
        Inr bmp_data \<Rightarrow> Saved bmp_data
      | Inl e \<Rightarrow> Exit1)"

section \<open>Properties of event lists\<close>

text \<open>The texts written to the link.\<close>

fun written :: "event list \<Rightarrow> string list" where
  "written [] = []"
| "written (Write t # es) = t # written es"
| "written (e # es) = written es"

text \<open>A text ends with exactly one line feed.\<close>

definition one_line_feed :: "string \<Rightarrow> bool" where
  "one_line_feed s = (endswith s [CHR 0x0A] \<and> \<not> endswith s [CHR 0x0A, CHR 0x0A])"

text \<open>The calls that touch the serial port.\<close>

fun on_wire :: "event \<Rightarrow> bool" where
  "on_wire ResetInput = True"
| "on_wire (Write t) = True"
| "on_wire Flush = True"
| "on_wire Readline = True"
| "on_wire e = False"

text \<open>
  \<open>guarded held evs\<close>: starting with \<^verbatim>\<open>serial_lock\<close> held or not, every call on the port in
  \<open>evs\<close> is made while the lock is held.
\<close>

fun guarded :: "bool \<Rightarrow> event list \<Rightarrow> bool" where
  "guarded held [] = True"
| "guarded held (e # es) =
     (if e = Acquire SerialLock then guarded True es
      else if e = Release SerialLock then guarded False es
      else (\<not> on_wire e \<or> held) \<and> guarded held es)"

section \<open>The telemetry schema\<close>

text \<open>
  The attribute stored for each of the fifteen field positions of a telemetry line, and
  the attributes derived from them once all the fields have been read.
\<close>

definition schema :: "string list" where
  "schema = [''fw_version'', ''currentFrequency_raw'', ''currentBFO'', ''bandCal'', ''bandName'',
     ''mode'', ''stepIdx'', ''bandwidthIdx'', ''agcIdx'', ''volume'', ''rssi_raw'', ''snr_raw'',
     ''tuningCapacitor'', ''voltage'', ''seqnum'']"

definition derived :: "string list" where
  "derived = [''frequency'', ''rssi'', ''snr'']"

text \<open>The positions converted with \<^verbatim>\<open>int\<close>, and the positions kept as text.\<close>

definition numeric_positions :: "nat list" where
  "numeric_positions = [1, 2, 9, 10, 11]"

definition text_positions :: "nat list" where
  "text_positions = [0, 3, 4, 5, 6, 7, 8, 12, 14]"

text \<open>Field \<open>i\<close> is beyond the field count, or blank.\<close>

definition blank_field :: "string list \<Rightarrow> nat \<Rightarrow> bool" where
  "blank_field parts i = (length parts \<le> i \<or> parts ! i = [])"

text \<open>Field \<open>i\<close> is present, not blank and not accepted by \<^verbatim>\<open>int\<close> (not a decimal
  integer, or one of more than \<open>int_max_str_digits\<close> digits).\<close>

definition bad_number :: "string list \<Rightarrow> nat \<Rightarrow> bool" where
  "bad_number parts i = (i < length parts \<and> parts ! i \<noteq> [] \<and> py_int (parts ! i) = None)"

text \<open>The response lines in a list of read outcomes: the stripped texts that are not
  empty, in order.\<close>

fun nonempty_lines :: "read list \<Rightarrow> string list" where
  "nonempty_lines [] = []"
| "nonempty_lines (Data raw # rs) =
     (if strip raw = [] then nonempty_lines rs else strip raw # nonempty_lines rs)"
| "nonempty_lines (r # rs) = nonempty_lines rs"

text \<open>The frequency text and the RSSI and SNR texts of a snapshot whose numeric fields
  all converted.\<close>

definition frequency_text :: "int \<Rightarrow> int \<Rightarrow> string \<Rightarrow> string" where
  "frequency_text k b m =
     (case format_frequency (PInt k) (PInt b) (PStr m) of Inr s \<Rightarrow> s | Inl e \<Rightarrow> [])"

definition unit_text :: "int option \<Rightarrow> string \<Rightarrow> string" where
  "unit_text v u = (case v of Some n \<Rightarrow> decimal n @ '' '' @ u | None \<Rightarrow> [])"

definition raises :: "read \<Rightarrow> bool" where
  "raises r = (case r of ReadError m \<Rightarrow> True | _ \<Rightarrow> False)"

section \<open>The shape of a parsed snapshot\<close>

text \<open>The dictionary at the end of the \<^verbatim>\<open>try\<close> block, for each place where it can end.\<close>

lemmas text_eval = strip_def is_space_def py_int_def int_body_def int_max_str_digits_def
  digitpart_def is_digit_def digit_val_def int_field_def text_field_def

text \<open>An integer that \<^verbatim>\<open>int\<close> accepted is below the digit limit, so the f-strings of the
  parser print it.\<close>

lemma digit_val_le: "is_digit c \<Longrightarrow> digit_val c \<le> 9"
  by (auto simp: is_digit_def digit_val_def Let_def)

lemma int_digits_bound:
  "int_digits acc us cs = Some m \<Longrightarrow> m < (acc + 1) * 10 ^ length (filter is_digit cs)"
proof (induction cs arbitrary: acc us)
  case Nil
  then show ?case by (simp split: if_splits)
next
  case (Cons c cs)
  show ?case
  proof (cases "is_digit c")
    case True
    with Cons.prems have "int_digits (10 * acc + digit_val c) False cs = Some m" by simp
    then have "m < (10 * acc + digit_val c + 1) * 10 ^ length (filter is_digit cs)"
      by (rule Cons.IH)
    also have "\<dots> \<le> (10 * (acc + 1)) * 10 ^ length (filter is_digit cs)"
      using digit_val_le [OF True] by (intro mult_right_mono) simp_all
    finally show ?thesis using True by (simp add: algebra_simps)
  next
    case False
    with Cons.prems have "int_digits acc True cs = Some m"
      by (simp split: if_splits)
    then have "m < (acc + 1) * 10 ^ length (filter is_digit cs)" by (rule Cons.IH)
    with False show ?thesis by simp
  qed
qed

lemma digitpart_bound: "digitpart s = Some m \<Longrightarrow> m < 10 ^ length (filter is_digit s)"
proof (cases s)
  case Nil
  then show "digitpart s = Some m \<Longrightarrow> ?thesis" by (simp add: digitpart_def)
next
  case (Cons c cs)
  assume "digitpart s = Some m"
  with Cons have c: "is_digit c" and "int_digits (digit_val c) False cs = Some m"
    by (auto simp: digitpart_def split: if_splits)
  then have "m < (digit_val c + 1) * 10 ^ length (filter is_digit cs)"
    using int_digits_bound by blast
  also have "\<dots> \<le> 10 * 10 ^ length (filter is_digit cs)"
    using digit_val_le [OF c] by (intro mult_right_mono) simp_all
  finally show ?thesis using Cons c by simp
qed

lemma int_body_bound: "int_body s = Some m \<Longrightarrow> m < 10 ^ int_max_str_digits"
proof -
  assume a: "int_body s = Some m"
  then have le: "length (filter is_digit s) \<le> int_max_str_digits" and "digitpart s = Some m"
    by (auto simp: int_body_def split: if_splits)
  then have "m < 10 ^ length (filter is_digit s)" using digitpart_bound by blast
  also have "\<dots> \<le> 10 ^ int_max_str_digits"
    using le by (intro power_increasing) simp_all
  finally show ?thesis .
qed

lemma py_int_bound: "py_int s = Some n \<Longrightarrow> \<bar>n\<bar> < 10 ^ int_max_str_digits"
proof -
  assume "py_int s = Some n"
  then obtain t m where "int_body t = Some m" and "\<bar>n\<bar> = int m"
    by (auto simp: py_int_def split: list.splits if_splits)
  then have "int m < int (10 ^ int_max_str_digits)"
    using int_body_bound [of t m] by (simp only: of_nat_less_iff)
  with \<open>\<bar>n\<bar> = int m\<close> show ?thesis by simp
qed

lemma str_int_small: "\<bar>n\<bar> < 10 ^ int_max_str_digits \<Longrightarrow> str_int n = Inr (decimal n)"
  by (simp add: str_int_def)

lemma int_field_bound:
  "int_field parts i = Inr v \<Longrightarrow> \<bar>or_zero v\<bar> < 10 ^ int_max_str_digits"
  by (auto simp: int_field_def or_zero_def split: if_splits option.splits dest: py_int_bound)

lemma unit_str_field: "int_field parts i = Inr v \<Longrightarrow> unit_str v u = Inr (unit_text v u)"
proof (cases v)
  case None
  then show ?thesis by (simp add: unit_str_def unit_text_def)
next
  case (Some n)
  assume "int_field parts i = Inr v"
  then have "\<bar>n\<bar> < 10 ^ int_max_str_digits"
    using int_field_bound [of parts i v] Some by (simp add: or_zero_def)
  then show ?thesis using Some by (simp add: unit_str_def unit_text_def str_int_small)
qed

lemma format_frequency_returns:
  assumes "\<bar>k\<bar> < 10 ^ int_max_str_digits"
  shows "format_frequency (PInt k) (PInt b) (PStr m) = Inr (frequency_text k b m)"
proof (cases "format_frequency_try (PInt k) (PInt b) (PStr m)")
  case (Inl e)
  then have "format_frequency (PInt k) (PInt b) (PStr m) = Inr (decimal k @ '' (raw)'')"
    using assms by (simp add: format_frequency_def str_int_small)
  then show ?thesis by (simp add: frequency_text_def)
next
  case (Inr s)
  then have "format_frequency (PInt k) (PInt b) (PStr m) = Inr s"
    by (simp add: format_frequency_def)
  then show ?thesis by (simp add: frequency_text_def)
qed

lemma parse_try_fail1:
  "int_field parts 1 = Inl e \<Longrightarrow> parse_try parts =
     ([(''raw_parts_count'', IntV (int (length parts))), (''fw_version'', TextV (text_field parts 0))], Some e)"
  by (simp add: parse_try_def setitems_def Let_def)

lemma parse_try_fail2:
  "int_field parts 1 = Inr f \<Longrightarrow> int_field parts 2 = Inl e \<Longrightarrow> parse_try parts =
     ([(''raw_parts_count'', IntV (int (length parts))), (''fw_version'', TextV (text_field parts 0))], Some e)"
  by (simp add: parse_try_def setitems_def Let_def)

lemma parse_try_fail9:
  "int_field parts 1 = Inr f \<Longrightarrow> int_field parts 2 = Inr b \<Longrightarrow> int_field parts 9 = Inl e \<Longrightarrow> parse_try parts =
     ([(''raw_parts_count'', IntV (int (length parts))), (''fw_version'', TextV (text_field parts 0)),
       (''currentFrequency_raw'', IntV (or_zero f)),
       (''currentBFO'', IntV (or_zero b)),
       (''bandCal'', TextV (text_field parts 3)),
       (''bandName'', TextV (text_field parts 4)),
       (''mode'', TextV (text_field parts 5)),
       (''stepIdx'', TextV (text_field parts 6)),
       (''bandwidthIdx'', TextV (text_field parts 7)),
       (''agcIdx'', TextV (text_field parts 8))], Some e)"
  by (simp add: parse_try_def setitems_def Let_def)

lemma parse_try_ok:
  "int_field parts 1 = Inr f \<Longrightarrow> int_field parts 2 = Inr b \<Longrightarrow> int_field parts 9 = Inr v
  \<Longrightarrow> int_field parts 10 = Inr r \<Longrightarrow> int_field parts 11 = Inr s \<Longrightarrow> parse_try parts =
     ([(''raw_parts_count'', IntV (int (length parts))), (''fw_version'', TextV (text_field parts 0)),
       (''currentFrequency_raw'', IntV (or_zero f)),
       (''currentBFO'', IntV (or_zero b)),
       (''bandCal'', TextV (text_field parts 3)),
       (''bandName'', TextV (text_field parts 4)),
       (''mode'', TextV (text_field parts 5)),
       (''stepIdx'', TextV (text_field parts 6)),
       (''bandwidthIdx'', TextV (text_field parts 7)),
       (''agcIdx'', TextV (text_field parts 8)),
       (''volume'', or_absent v),
       (''rssi_raw'', or_absent r),
       (''snr_raw'', or_absent s),
       (''tuningCapacitor'', TextV (text_field parts 12)),
       (''voltage'', voltage_attr parts),
       (''seqnum'', TextV (text_field parts 14)),
       (''frequency'', TextV (frequency_text (or_zero f) (or_zero b) (text_field parts 5))),
       (''rssi'', TextV (unit_text r ''dBuV'')),
       (''snr'', TextV (unit_text s ''dB''))], None)"
  by (simp add: parse_try_def setitems_def Let_def unit_str_field
      format_frequency_returns [OF int_field_bound])

lemma parse_try_fail10:
  "int_field parts 1 = Inr f \<Longrightarrow> int_field parts 2 = Inr b \<Longrightarrow> int_field parts 9 = Inr v
  \<Longrightarrow> int_field parts 10 = Inl e \<Longrightarrow> parse_try parts =
     ([(''raw_parts_count'', IntV (int (length parts))), (''fw_version'', TextV (text_field parts 0)),
       (''currentFrequency_raw'', IntV (or_zero f)),
       (''currentBFO'', IntV (or_zero b)),
       (''bandCal'', TextV (text_field parts 3)),
       (''bandName'', TextV (text_field parts 4)),
       (''mode'', TextV (text_field parts 5)),
       (''stepIdx'', TextV (text_field parts 6)),
       (''bandwidthIdx'', TextV (text_field parts 7)),
       (''agcIdx'', TextV (text_field parts 8)),
       (''volume'', or_absent v)], Some e)"
  by (simp add: parse_try_def setitems_def Let_def)

lemma parse_try_fail11:
  "int_field parts 1 = Inr f \<Longrightarrow> int_field parts 2 = Inr b \<Longrightarrow> int_field parts 9 = Inr v
  \<Longrightarrow> int_field parts 10 = Inr r \<Longrightarrow> int_field parts 11 = Inl e \<Longrightarrow> parse_try parts =
     ([(''raw_parts_count'', IntV (int (length parts))), (''fw_version'', TextV (text_field parts 0)),
       (''currentFrequency_raw'', IntV (or_zero f)),
       (''currentBFO'', IntV (or_zero b)),
       (''bandCal'', TextV (text_field parts 3)),
       (''bandName'', TextV (text_field parts 4)),
       (''mode'', TextV (text_field parts 5)),
       (''stepIdx'', TextV (text_field parts 6)),
       (''bandwidthIdx'', TextV (text_field parts 7)),
       (''agcIdx'', TextV (text_field parts 8)),
       (''volume'', or_absent v),
       (''rssi_raw'', or_absent r)], Some e)"
  by (simp add: parse_try_def setitems_def Let_def)

lemma parse_try_cases:
  obtains
    (fail1) e where "int_field parts 1 = Inl e"
  | (fail2) f e where "int_field parts 1 = Inr f" "int_field parts 2 = Inl e"
  | (fail9) f b e where "int_field parts 1 = Inr f" "int_field parts 2 = Inr b"
      "int_field parts 9 = Inl e"
  | (fail10) f b v e where "int_field parts 1 = Inr f" "int_field parts 2 = Inr b"
      "int_field parts 9 = Inr v" "int_field parts 10 = Inl e"
  | (fail11) f b v r e where "int_field parts 1 = Inr f" "int_field parts 2 = Inr b"
      "int_field parts 9 = Inr v" "int_field parts 10 = Inr r" "int_field parts 11 = Inl e"
  | (ok) f b v r s where "int_field parts 1 = Inr f" "int_field parts 2 = Inr b"
      "int_field parts 9 = Inr v" "int_field parts 10 = Inr r" "int_field parts 11 = Inr s"
  by (cases "int_field parts 1"; cases "int_field parts 2"; cases "int_field parts 9";
      cases "int_field parts 10"; cases "int_field parts 11") auto

lemmas parse_try_shapes = parse_try_fail1 parse_try_fail2 parse_try_fail9 parse_try_fail10
  parse_try_fail11 parse_try_ok

lemma fw_version_lookup:
  "map_of (parse_monitor_line line) ''fw_version''
     = Some (TextV (text_field (map strip (split_sep CHR '','' line)) 0))"
  by (cases rule: parse_try_cases [of "map strip (split_sep CHR '','' line)"])
     (simp_all add: parse_monitor_line_def parse_try_shapes)

lemma raw_frequency_lookup:
  "map_of (parse_monitor_line line) ''currentFrequency_raw'' = None
   \<or> (\<exists>n. map_of (parse_monitor_line line) ''currentFrequency_raw'' = Some (IntV n))"
  by (cases rule: parse_try_cases [of "map strip (split_sep CHR '','' line)"])
     (simp_all add: parse_monitor_line_def parse_try_shapes)

lemma parse_monitor_line_nonempty: "parse_monitor_line line \<noteq> []"
  by (cases rule: parse_try_cases [of "map strip (split_sep CHR '','' line)"])
     (simp_all add: parse_monitor_line_def parse_try_shapes)

lemma publishable_iff:
  "publishable (parse_monitor_line line) \<longleftrightarrow>
     (\<exists>fw. map_of (parse_monitor_line line) ''fw_version'' = Some (TextV fw) \<and> fw \<noteq> [])
   \<or> (\<exists>n. map_of (parse_monitor_line line) ''currentFrequency_raw'' = Some (IntV n) \<and> n \<noteq> 0)"
  using raw_frequency_lookup [of line]
  by (auto simp: publishable_def fw_version_lookup parse_monitor_line_nonempty)


section \<open>The discarded-observation rule\<close>

text \<open>
  Claim C3. In one iteration of the reader loop the published snapshot either stays as
  it was, or becomes the snapshot parsed from the line just read, and then that snapshot
  has a firmware version that is not empty or a raw frequency that is not zero. A line
  whose snapshot has an empty firmware version and a raw frequency of 0 (or none) leaves
  the published snapshot unchanged.
\<close>

theorem reader_loop_replaces_only_valid_observation:
  assumes "st' = snd (monitor_iteration ser r st)"
  shows "(monitor_parsed st' = monitor_parsed st
          \<or> (\<exists>raw. r = Data raw \<and> monitor_parsed st' = parse_monitor_line (strip raw)
               \<and> ((\<exists>fw. map_of (monitor_parsed st') ''fw_version'' = Some (TextV fw) \<and> fw \<noteq> [])
                  \<or> (\<exists>n. map_of (monitor_parsed st') ''currentFrequency_raw'' = Some (IntV n)
                         \<and> n \<noteq> 0))))
       \<and> (\<forall>raw. r = Data raw
            \<longrightarrow> map_of (parse_monitor_line (strip raw)) ''fw_version'' = Some (TextV [])
            \<longrightarrow> (map_of (parse_monitor_line (strip raw)) ''currentFrequency_raw'' = Some (IntV 0)
                 \<or> map_of (parse_monitor_line (strip raw)) ''currentFrequency_raw'' = None)
            \<longrightarrow> monitor_parsed st' = monitor_parsed st)"
proof (cases ser)
  case None
  with assms show ?thesis by (simp add: monitor_iteration_def)
next
  case (Some h)
  show ?thesis
  proof (cases r)
    case NoData
    with Some assms show ?thesis by (auto simp: monitor_iteration_def Let_def split: if_splits)
  next
    case (ReadError m)
    with Some assms show ?thesis by (auto simp: monitor_iteration_def Let_def split: if_splits)
  next
    case (Data raw)
    have on: "monitor_parsed (on_line (strip raw) st) =
        (if CHR '','' \<in> set (strip raw) \<and> publishable (parse_monitor_line (strip raw))
         then parse_monitor_line (strip raw) else monitor_parsed st)"
      by (simp add: on_line_def Let_def)
    have st': "st' = st \<or> st' = on_line (strip raw) st"
      using Some Data assms by (auto simp: monitor_iteration_def Let_def split: if_splits)
    show ?thesis
      using st' on Data publishable_iff [of "strip raw"] by auto
  qed
qed

theorem reader_loop_replaces_only_valid_observation_witness:
  "map_of (parse_monitor_line (strip '' ,0,5'')) ''fw_version'' = Some (TextV [])
   \<and> map_of (parse_monitor_line (strip '' ,0,5'')) ''currentFrequency_raw'' = Some (IntV 0)
   \<and> monitor_parsed (snd (monitor_iteration
        (Some \<lparr>h_port = ''COM3'', h_baud = 9600, is_open = True\<rparr>) (Data '' ,0,5'')
        \<lparr>latest_raw_line = ''old'', monitor_parsed = [(''fw_version'', TextV ''1.0'')],
         monitor_active = True, monitor_requested = False\<rparr>))
     = [(''fw_version'', TextV ''1.0'')]"
proof -
  have parts: "map strip (split_sep CHR '','' (strip '' ,0,5'')) = [[], ''0'', ''5'']"
    by (simp add: text_eval)
  have fw: "map_of (parse_monitor_line (strip '' ,0,5'')) ''fw_version'' = Some (TextV [])"
    by (simp add: fw_version_lookup parts text_field_def)
  have fr: "map_of (parse_monitor_line (strip '' ,0,5'')) ''currentFrequency_raw'' = Some (IntV 0)"
    unfolding parse_monitor_line_def parts
    by (subst parse_try_ok [where f = "Some 0" and b = "Some 5" and v = None and r = None and s = None])
       (simp_all add: text_eval or_zero_def)
  show ?thesis
    using fw fr reader_loop_replaces_only_valid_observation [OF refl,
        where r = "Data '' ,0,5''"
          and ser = "Some \<lparr>h_port = ''COM3'', h_baud = 9600, is_open = True\<rparr>"
          and st = "\<lparr>latest_raw_line = ''old'', monitor_parsed = [(''fw_version'', TextV ''1.0'')],
             monitor_active = True, monitor_requested = False\<rparr>"]
    by simp
qed

section \<open>Fields that are blank, missing or malformed\<close>


lemma int_field_bad: "bad_number parts i \<Longrightarrow> int_field parts i = Inl (int_error (parts ! i))"
  by (simp add: bad_number_def int_field_def)

lemma int_field_good: "\<not> bad_number parts i \<Longrightarrow> \<exists>v. int_field parts i = Inr v"
  by (auto simp: bad_number_def int_field_def split: option.splits)

lemma int_field_blank: "blank_field parts i \<Longrightarrow> int_field parts i = Inr None"
  by (auto simp: blank_field_def int_field_def)

lemma text_field_blank: "blank_field parts i \<Longrightarrow> text_field parts i = []"
  by (auto simp: blank_field_def text_field_def)

lemma voltage_blank: "blank_field parts 13 \<Longrightarrow> voltage_attr parts = Absent"
  by (auto simp: blank_field_def voltage_attr_def)

lemma split_sep_nonempty: "split_sep c s \<noteq> []"
  by (induction s) (auto split: list.splits)

lemma split_sep_single: "c \<notin> set s \<Longrightarrow> length (split_sep c s) = 1"
  by (induction s) (auto split: list.splits)

lemma strip_empty: "strip [] = []"
  by (simp add: strip_def)


lemma first_malformed_shape:
  assumes parts: "parts = map strip (split_sep CHR '','' line)"
    and i: "i \<in> set numeric_positions"
    and bad: "bad_number parts i"
    and first: "\<forall>j\<in>set numeric_positions. j < i \<longrightarrow> \<not> bad_number parts j"
  shows "(\<exists>m. map_of (parse_monitor_line line) ''parse_error'' = Some (TextV m))
       \<and> (\<forall>k\<in>set (drop i schema @ derived). map_of (parse_monitor_line line) k = None)
       \<and> (i = 2 \<longrightarrow> map_of (parse_monitor_line line) ''currentFrequency_raw'' = None)"
proof -
  let ?out = "parse_monitor_line line"
  from i have "i = 1 \<or> i = 2 \<or> i = 9 \<or> i = 10 \<or> i = 11"
    by (simp add: numeric_positions_def)
  then show ?thesis
  proof (elim disjE)
    assume "i = 1"
    with bad show ?thesis
      by (simp add: parse_monitor_line_def parts [symmetric] parse_try_fail1 [OF int_field_bad]
          schema_def derived_def)
  next
    assume i2: "i = 2"
    with first obtain f where "int_field parts 1 = Inr f"
      using int_field_good [of parts 1] by (auto simp: numeric_positions_def)
    with bad i2 show ?thesis
      by (simp add: parse_monitor_line_def parts [symmetric] parse_try_fail2 [OF _ int_field_bad]
          schema_def derived_def)
  next
    assume i9: "i = 9"
    with first obtain f b where "int_field parts 1 = Inr f" "int_field parts 2 = Inr b"
      using int_field_good [of parts 1] int_field_good [of parts 2]
      by (auto simp: numeric_positions_def)
    with bad i9 show ?thesis
      by (simp add: parse_monitor_line_def parts [symmetric]
          parse_try_fail9 [OF _ _ int_field_bad] schema_def derived_def)
  next
    assume i10: "i = 10"
    with first obtain f b v where "int_field parts 1 = Inr f" "int_field parts 2 = Inr b"
        "int_field parts 9 = Inr v"
      using int_field_good [of parts 1] int_field_good [of parts 2] int_field_good [of parts 9]
      by (auto simp: numeric_positions_def)
    with bad i10 show ?thesis
      by (simp add: parse_monitor_line_def parts [symmetric]
          parse_try_fail10 [OF _ _ _ int_field_bad] schema_def derived_def)
  next
    assume i11: "i = 11"
    with first obtain f b v r where "int_field parts 1 = Inr f" "int_field parts 2 = Inr b"
        "int_field parts 9 = Inr v" "int_field parts 10 = Inr r"
      using int_field_good [of parts 1] int_field_good [of parts 2] int_field_good [of parts 9]
        int_field_good [of parts 10]
      by (auto simp: numeric_positions_def)
    with bad i11 show ?thesis
      by (simp add: parse_monitor_line_def parts [symmetric]
          parse_try_fail11 [OF _ _ _ _ int_field_bad] schema_def derived_def)
  qed
qed

lemma raw_parts_count_lookup:
  "map_of (parse_monitor_line line) ''raw_parts_count''
     = Some (IntV (int (length (map strip (split_sep CHR '','' line)))))"
  by (cases rule: parse_try_cases [of "map strip (split_sep CHR '','' line)"])
     (simp_all add: parse_monitor_line_def parse_try_shapes)

text \<open>
  Claim C10. When some numeric field (positions 1, 2, 9, 10, 11) is present, not blank and
  not a decimal integer, and \<open>i\<close> is the first such position, the snapshot carries a
  \<^verbatim>\<open>parse_error\<close> text and has none of the attributes of positions \<open>i\<close> and later, nor
  any derived attribute. If its firmware version is not empty, an iteration of the reader
  loop on an open link that reads this line publishes it in place of the previous
  snapshot.
\<close>

theorem parse_error_snapshot_published:
  assumes parts: "parts = map strip (split_sep CHR '','' line)"
    and i: "i \<in> set numeric_positions"
    and bad: "bad_number parts i"
    and first: "\<forall>j\<in>set numeric_positions. j < i \<longrightarrow> \<not> bad_number parts j"
  shows "(\<exists>m. map_of (parse_monitor_line line) ''parse_error'' = Some (TextV m))
       \<and> (\<forall>k\<in>set (drop i schema @ derived). map_of (parse_monitor_line line) k = None)
       \<and> (\<forall>fw. map_of (parse_monitor_line line) ''fw_version'' = Some (TextV fw) \<and> fw \<noteq> []
              \<and> is_open h \<and> strip raw = line
            \<longrightarrow> snd (monitor_iteration (Some h) (Data raw) st)
                = st\<lparr>latest_raw_line := line, monitor_parsed := parse_monitor_line line,
                     monitor_active := True\<rparr>)"
proof -
  let ?out = "parse_monitor_line line"
  have shape: "(\<exists>m. map_of ?out ''parse_error'' = Some (TextV m))
       \<and> (\<forall>k\<in>set (drop i schema @ derived). map_of ?out k = None)"
    using first_malformed_shape [OF parts i bad first] by simp
  have comma: "CHR '','' \<in> set line"
  proof (rule ccontr)
    assume "CHR '','' \<notin> set line"
    then have "length parts = 1" by (simp add: parts split_sep_single)
    with bad i show False by (auto simp: bad_number_def numeric_positions_def)
  qed
  have "snd (monitor_iteration (Some h) (Data raw) st)
        = st\<lparr>latest_raw_line := line, monitor_parsed := ?out, monitor_active := True\<rparr>"
    if "map_of ?out ''fw_version'' = Some (TextV fw)" "fw \<noteq> []" "is_open h" "strip raw = line"
    for fw
  proof -
    from comma have "line \<noteq> []" by auto
    moreover have "publishable ?out"
      using that(1,2) by (auto simp: publishable_def)
    ultimately show ?thesis
      using that(3,4) comma by (simp add: monitor_iteration_def on_line_def Let_def)
  qed
  with shape show ?thesis by blast
qed

theorem parse_error_snapshot_published_witness:
  "(\<exists>m. map_of (parse_monitor_line ''1.0,72x'') ''parse_error'' = Some (TextV m))
   \<and> map_of (parse_monitor_line ''1.0,72x'') ''currentFrequency_raw'' = None
   \<and> map_of (parse_monitor_line ''1.0,72x'') ''frequency'' = None
   \<and> snd (monitor_iteration (Some \<lparr>h_port = ''COM3'', h_baud = 9600, is_open = True\<rparr>)
        (Data ''1.0,72x'')
        \<lparr>latest_raw_line = ''old'', monitor_parsed = [(''fw_version'', TextV ''0.9'')],
         monitor_active = True, monitor_requested = False\<rparr>)
     = \<lparr>latest_raw_line = ''1.0,72x'', monitor_parsed = parse_monitor_line ''1.0,72x'',
        monitor_active = True, monitor_requested = False\<rparr>"
proof -
  have parts: "map strip (split_sep CHR '','' ''1.0,72x'') = [''1.0'', ''72x'']"
    by (simp add: text_eval)
  have bad: "bad_number [''1.0'', ''72x''] 1"
    by (simp add: bad_number_def text_eval)
  have fw: "map_of (parse_monitor_line ''1.0,72x'') ''fw_version'' = Some (TextV ''1.0'')"
    unfolding fw_version_lookup parts by (simp add: text_field_def)
  have line: "strip ''1.0,72x'' = ''1.0,72x''"
    by (simp add: text_eval)
  show ?thesis
    using parse_error_snapshot_published [OF parts [symmetric] _ bad,
        where h = "\<lparr>h_port = ''COM3'', h_baud = 9600, is_open = True\<rparr>"
          and raw = "''1.0,72x''"
          and st = "\<lparr>latest_raw_line = ''old'', monitor_parsed = [(''fw_version'', TextV ''0.9'')],
             monitor_active = True, monitor_requested = False\<rparr>"] fw line
    by (simp add: numeric_positions_def schema_def derived_def)
qed


text \<open>
  Claim C4, as the code has it. Every line gives a snapshot (the handler of the \<^verbatim>\<open>try\<close>
  block returns the dictionary; no exception leaves \<open>parse_monitor_line\<close>), with its field
  count. When no numeric field is malformed (refused by \<^verbatim>\<open>int\<close>: not a decimal integer, or
  one of more than \<open>int_max_str_digits\<close> digits), the snapshot has no \<^verbatim>\<open>parse_error\<close>, and
  for every position that is blank or beyond the field count: the raw frequency and the
  raw BFO are 0; volume, RSSI, SNR and voltage are \<^verbatim>\<open>None\<close>; a text attribute is the empty
  text; the RSSI and SNR strings are empty. When a numeric field is malformed, the
  snapshot has a \<^verbatim>\<open>parse_error\<close> instead, and none of the attributes from the first
  malformed position on, nor a derived one; when that position is the BFO, the raw
  frequency is not stored either, whatever its field.
\<close>

theorem missing_fields_absent_or_zero:
  assumes parts: "parts = map strip (split_sep CHR '','' line)"
  shows "map_of (parse_monitor_line line) ''raw_parts_count'' = Some (IntV (int (length parts)))
       \<and> ((\<forall>j\<in>set numeric_positions. \<not> bad_number parts j) \<longrightarrow>
            map_of (parse_monitor_line line) ''parse_error'' = None
            \<and> (blank_field parts 1 \<longrightarrow>
                 map_of (parse_monitor_line line) ''currentFrequency_raw'' = Some (IntV 0))
            \<and> (blank_field parts 2 \<longrightarrow>
                 map_of (parse_monitor_line line) ''currentBFO'' = Some (IntV 0))
            \<and> (\<forall>i\<in>set [9, 10, 11, 13]. blank_field parts i \<longrightarrow>
                 map_of (parse_monitor_line line) (schema ! i) = Some Absent)
            \<and> (\<forall>i\<in>set text_positions. blank_field parts i \<longrightarrow>
                 map_of (parse_monitor_line line) (schema ! i) = Some (TextV []))
            \<and> (blank_field parts 10 \<longrightarrow> map_of (parse_monitor_line line) ''rssi'' = Some (TextV []))
            \<and> (blank_field parts 11 \<longrightarrow> map_of (parse_monitor_line line) ''snr'' = Some (TextV [])))
       \<and> (\<forall>i\<in>set numeric_positions.
            bad_number parts i \<and> (\<forall>j\<in>set numeric_positions. j < i \<longrightarrow> \<not> bad_number parts j) \<longrightarrow>
            (\<exists>m. map_of (parse_monitor_line line) ''parse_error'' = Some (TextV m))
            \<and> (\<forall>k\<in>set (drop i schema @ derived). map_of (parse_monitor_line line) k = None)
            \<and> (i = 2 \<longrightarrow> map_of (parse_monitor_line line) ''currentFrequency_raw'' = None))"
proof -
  have count: "map_of (parse_monitor_line line) ''raw_parts_count''
      = Some (IntV (int (length parts)))"
    by (simp add: raw_parts_count_lookup parts)
  have good: "map_of (parse_monitor_line line) ''parse_error'' = None
      \<and> (blank_field parts 1 \<longrightarrow>
           map_of (parse_monitor_line line) ''currentFrequency_raw'' = Some (IntV 0))
      \<and> (blank_field parts 2 \<longrightarrow>
           map_of (parse_monitor_line line) ''currentBFO'' = Some (IntV 0))
      \<and> (\<forall>i\<in>set [9, 10, 11, 13]. blank_field parts i \<longrightarrow>
           map_of (parse_monitor_line line) (schema ! i) = Some Absent)
      \<and> (\<forall>i\<in>set text_positions. blank_field parts i \<longrightarrow>
           map_of (parse_monitor_line line) (schema ! i) = Some (TextV []))
      \<and> (blank_field parts 10 \<longrightarrow> map_of (parse_monitor_line line) ''rssi'' = Some (TextV []))
      \<and> (blank_field parts 11 \<longrightarrow> map_of (parse_monitor_line line) ''snr'' = Some (TextV []))"
    if ok: "\<forall>j\<in>set numeric_positions. \<not> bad_number parts j"
  proof -
  from ok obtain f b v r s where fields: "int_field parts 1 = Inr f" "int_field parts 2 = Inr b"
      "int_field parts 9 = Inr v" "int_field parts 10 = Inr r" "int_field parts 11 = Inr s"
    using int_field_good [of parts 1] int_field_good [of parts 2] int_field_good [of parts 9]
      int_field_good [of parts 10] int_field_good [of parts 11]
    by (auto simp: numeric_positions_def)
  have blank: "blank_field parts 1 \<Longrightarrow> f = None" "blank_field parts 2 \<Longrightarrow> b = None"
      "blank_field parts 9 \<Longrightarrow> v = None" "blank_field parts 10 \<Longrightarrow> r = None"
      "blank_field parts 11 \<Longrightarrow> s = None"
    using fields by (auto dest: int_field_blank)
  show ?thesis
    unfolding parse_monitor_line_def parts [symmetric] parse_try_ok [OF fields]
    by (auto simp: schema_def text_positions_def or_zero_def or_absent_def unit_text_def
        text_field_blank voltage_blank dest: blank(1) [unfolded One_nat_def] blank(2-5))
  qed
  have malformed: "(\<exists>m. map_of (parse_monitor_line line) ''parse_error'' = Some (TextV m))
      \<and> (\<forall>k\<in>set (drop i schema @ derived). map_of (parse_monitor_line line) k = None)
      \<and> (i = 2 \<longrightarrow> map_of (parse_monitor_line line) ''currentFrequency_raw'' = None)"
    if "i \<in> set numeric_positions" "bad_number parts i"
      "\<forall>j\<in>set numeric_positions. j < i \<longrightarrow> \<not> bad_number parts j" for i
    using first_malformed_shape [OF parts that] .
  from count good malformed show ?thesis by blast
qed

theorem missing_fields_absent_or_zero_witness:
  "map_of (parse_monitor_line ''1.0, ,7,,40m'') ''currentFrequency_raw'' = Some (IntV 0)
   \<and> map_of (parse_monitor_line ''1.0, ,7,,40m'') ''volume'' = Some Absent
   \<and> map_of (parse_monitor_line ''1.0, ,7,,40m'') ''voltage'' = Some Absent
   \<and> map_of (parse_monitor_line ''1.0, ,7,,40m'') ''bandCal'' = Some (TextV [])
   \<and> map_of (parse_monitor_line ''1.0, ,7,,40m'') ''rssi'' = Some (TextV [])
   \<and> map_of (parse_monitor_line ''1.0,,y'') ''currentFrequency_raw'' = None
   \<and> map_of (parse_monitor_line ''1.0,,y'') ''snr'' = None"
proof -
  have parts: "map strip (split_sep CHR '','' ''1.0, ,7,,40m'') = [''1.0'', [], ''7'', [], ''40m'']"
    by (simp add: text_eval)
  have ok: "\<forall>j\<in>set numeric_positions. \<not> bad_number [''1.0'', [], ''7'', [], ''40m''] j"
    by (simp add: numeric_positions_def bad_number_def text_eval)
  have good: "map_of (parse_monitor_line ''1.0, ,7,,40m'') ''currentFrequency_raw'' = Some (IntV 0)
   \<and> map_of (parse_monitor_line ''1.0, ,7,,40m'') ''volume'' = Some Absent
   \<and> map_of (parse_monitor_line ''1.0, ,7,,40m'') ''voltage'' = Some Absent
   \<and> map_of (parse_monitor_line ''1.0, ,7,,40m'') ''bandCal'' = Some (TextV [])
   \<and> map_of (parse_monitor_line ''1.0, ,7,,40m'') ''rssi'' = Some (TextV [])"
    using missing_fields_absent_or_zero [OF parts [symmetric]] ok
    by (simp add: blank_field_def schema_def text_positions_def)
  have parts2: "map strip (split_sep CHR '','' ''1.0,,y'') = [''1.0'', [], ''y'']"
    by (simp add: text_eval)
  have bad: "bad_number [''1.0'', [], ''y''] 2"
    by (simp add: bad_number_def text_eval)
  have first: "\<forall>j\<in>set numeric_positions. j < 2 \<longrightarrow> \<not> bad_number [''1.0'', [], ''y''] j"
    by (simp add: numeric_positions_def bad_number_def text_eval)
  have "2 \<in> set numeric_positions" by (simp add: numeric_positions_def)
  then have malformed: "map_of (parse_monitor_line ''1.0,,y'') ''currentFrequency_raw'' = None
   \<and> map_of (parse_monitor_line ''1.0,,y'') ''snr'' = None"
    using missing_fields_absent_or_zero [OF parts2 [symmetric]] bad first
    by (auto simp: schema_def derived_def)
  from good malformed show ?thesis by simp
qed

text \<open>
  The claim C4 as stated, for every line, fails on a line with a malformed numeric field:
  in \<^verbatim>\<open>fw,,x\<close> the frequency field is blank and the BFO field is \<^verbatim>\<open>x\<close>; the snapshot has no
  raw frequency at all (not 0), and no volume attribute (not an explicit \<^verbatim>\<open>None\<close>).
\<close>

theorem blank_frequency_not_zero_counterexample:
  "blank_field (map strip (split_sep CHR '','' ''fw,,x'')) 1
   \<and> map_of (parse_monitor_line ''fw,,x'') ''currentFrequency_raw'' = None
   \<and> blank_field (map strip (split_sep CHR '','' ''fw,,x'')) 9
   \<and> map_of (parse_monitor_line ''fw,,x'') ''volume'' = None"
proof -
  have parts: "map strip (split_sep CHR '','' ''fw,,x'') = [''fw'', [], ''x'']"
    by (simp add: text_eval)
  have f: "int_field [''fw'', [], ''x''] 1 = Inr None"
    by (simp add: text_eval)
  have b: "int_field [''fw'', [], ''x''] 2 = Inl (int_error ''x'')"
    by (simp add: text_eval)
  show ?thesis
    unfolding parse_monitor_line_def parts
    by (simp add: parse_try_fail2 [OF f b] blank_field_def)
qed

section \<open>The command channel\<close>

lemma before_snd: "snd (before evs r) = snd r"
  by (simp add: before_def)

lemma before_fst: "fst (before evs r) = evs @ fst r"
  by (simp add: before_def)

lemma read_lines_timeout:
  "\<forall>r\<in>set rs. \<not> raises r \<Longrightarrow> int (length (lines @ nonempty_lines rs)) < wait_lines
   \<Longrightarrow> snd (read_lines wait_lines rs lines) = lines @ nonempty_lines rs"
proof (induction rs arbitrary: lines)
  case Nil
  then show ?case by simp
next
  case (Cons r rs)
  show ?case
  proof (cases r)
    case NoData
    with Cons show ?thesis by (simp add: before_snd)
  next
    case (ReadError m)
    with Cons.prems show ?thesis by (simp add: raises_def)
  next
    case (Data raw)
    show ?thesis
    proof (cases "strip raw = []")
      case True
      with Data Cons show ?thesis by (simp add: before_snd)
    next
      case False
      from Cons.prems(2) Data False
      have more: "int (length ((lines @ [strip raw]) @ nonempty_lines rs)) < wait_lines"
        by simp
      then have "\<not> wait_lines \<le> int (length (lines @ [strip raw]))"
        by simp
      moreover have "snd (read_lines wait_lines rs (lines @ [strip raw]))
          = (lines @ [strip raw]) @ nonempty_lines rs"
        using Cons.IH [OF _ more] Cons.prems(1) by simp
      ultimately show ?thesis
        using Data False by (simp add: before_snd Let_def)
    qed
  qed
qed


text \<open>
  Claim C5. On an open link whose reset, write and flush succeed, when no read raises and
  the timeout passes with fewer than \<^verbatim>\<open>wait_lines\<close> response lines collected (none, or
  some), \<open>send_serial_raw\<close> returns the lines collected so far, in order, and raises
  nothing.
\<close>

theorem timeout_returns_collected_lines:
  assumes "is_open h"
    and "reset_error w = None" and "write_error w = None" and "flush_error w = None"
    and "\<forall>r\<in>set (reads w). \<not> raises r"
    and "int (length (nonempty_lines (reads w))) < wait_lines"
  shows "snd (send_serial_raw (Some h) cmd wait_lines w) = Inr (nonempty_lines (reads w))"
proof -
  have "snd (read_lines wait_lines (reads w) []) = nonempty_lines (reads w)"
    using read_lines_timeout [of "reads w" "[]" wait_lines] assms(5,6) by simp
  then show ?thesis
    using assms(1-4) by (auto simp: send_serial_raw_def split: prod.splits)
qed

theorem timeout_returns_collected_lines_witness:
  "snd (send_serial_raw (Some \<lparr>h_port = ''COM3'', h_baud = 9600, is_open = True\<rparr>) ''$'' 5
      \<lparr>reset_error = None, write_error = None, flush_error = None,
       reads = [Data ''one '', NoData, Data ''  '', Data ''two'', NoData]\<rparr>)
     = Inr [''one'', ''two'']
   \<and> snd (send_serial_raw (Some \<lparr>h_port = ''COM3'', h_baud = 9600, is_open = True\<rparr>) ''$'' 5
      \<lparr>reset_error = None, write_error = None, flush_error = None, reads = [NoData, NoData]\<rparr>)
     = Inr []"
  using timeout_returns_collected_lines [where wait_lines = 5 and cmd = "''$''"
      and h = "\<lparr>h_port = ''COM3'', h_baud = 9600, is_open = True\<rparr>"
      and w = "\<lparr>reset_error = None, write_error = None, flush_error = None,
       reads = [Data ''one '', NoData, Data ''  '', Data ''two'', NoData]\<rparr>"]
    timeout_returns_collected_lines [where wait_lines = 5 and cmd = "''$''"
      and h = "\<lparr>h_port = ''COM3'', h_baud = 9600, is_open = True\<rparr>"
      and w = "\<lparr>reset_error = None, write_error = None, flush_error = None,
       reads = [NoData, NoData]\<rparr>"]
  by (simp add: raises_def strip_def is_space_def)

lemma written_append: "written (xs @ ys) = written xs @ written ys"
  by (induction xs rule: written.induct) auto

lemma written_read_lines: "written (fst (read_lines n rs lines)) = []"
  by (induction rs arbitrary: lines) (auto simp: before_fst Let_def split: read.splits)

lemma endswith_iff: "endswith s suffix \<longleftrightarrow> (\<exists>p. s = p @ suffix)"
proof
  assume "endswith s suffix"
  then have "s = take (length s - length suffix) s @ suffix"
    by (simp add: endswith_def) (metis append_take_drop_id)
  then show "\<exists>p. s = p @ suffix" ..
next
  assume "\<exists>p. s = p @ suffix"
  then show "endswith s suffix" by (auto simp: endswith_def)
qed

lemma one_line_feed_appended:
  "\<not> endswith cmd [CHR 0x0A] \<Longrightarrow> one_line_feed (cmd @ [CHR 0x0A])"
  by (auto simp: one_line_feed_def endswith_iff)

lemma two_line_feeds: "endswith cmd [CHR 0x0A, CHR 0x0A] \<Longrightarrow> endswith cmd [CHR 0x0A]"
  by (auto simp: endswith_iff)

lemma written_send:
  assumes "is_open h" and "reset_error w = None"
  shows "written (fst (send_serial_raw (Some h) cmd wait_lines w))
           = [if endswith cmd [CHR 0x0A] then cmd else cmd @ [CHR 0x0A]]"
  using assms
  by (auto simp: send_serial_raw_def Let_def written_append written_read_lines
      split: option.splits prod.splits)
     (metis fst_conv written_read_lines)+


text \<open>
  Claim C8, as the code has it. On an open link the text written is the command itself
  when it already ends with a line feed, and the command followed by one line feed
  otherwise: it always ends with a line feed, and with exactly one unless the command
  ends with two or more, which are kept. A command that comes through \<^verbatim>\<open>api_command\<close> has
  no line feed left in it and is written with exactly one.
\<close>

theorem written_command_ends_with_line_feed:
  assumes "is_open h" and "reset_error w = None"
  shows "written (fst (send_serial_raw (Some h) cmd wait_lines w))
           = [if endswith cmd [CHR 0x0A] then cmd else cmd @ [CHR 0x0A]]
       \<and> (\<forall>t\<in>set (written (fst (send_serial_raw (Some h) cmd wait_lines w))).
            endswith t [CHR 0x0A]
            \<and> (one_line_feed t \<longleftrightarrow> \<not> endswith cmd [CHR 0x0A, CHR 0x0A]))
       \<and> (\<forall>t\<in>set (written (fst (api_command (Some h) cmd w))). one_line_feed t)"
proof -
  let ?t = "if endswith cmd [CHR 0x0A] then cmd else cmd @ [CHR 0x0A]"
  have ends: "endswith ?t [CHR 0x0A]"
    by (auto simp: endswith_iff)
  have one: "one_line_feed ?t \<longleftrightarrow> \<not> endswith cmd [CHR 0x0A, CHR 0x0A]"
    using one_line_feed_appended [of cmd] two_line_feeds [of cmd]
    by (auto simp: one_line_feed_def)
  let ?c = "filter (\<lambda>c. c \<noteq> CHR 0x0A) (filter (\<lambda>c. c \<noteq> CHR 0x0D) cmd)"
  have "\<not> endswith ?c [CHR 0x0A]"
  proof
    assume "endswith ?c [CHR 0x0A]"
    then obtain p where "?c = p @ [CHR 0x0A]" by (auto simp: endswith_iff)
    then have "CHR 0x0A \<in> set ?c" by simp
    then show False by simp
  qed
  then have api: "written (fst (send_serial_raw (Some h) ?c 4 w)) = [?c @ [CHR 0x0A]]"
      and "one_line_feed (?c @ [CHR 0x0A])"
    using written_send [OF assms, of ?c 4] one_line_feed_appended [of ?c] by simp_all
  then have "\<forall>t\<in>set (written (fst (api_command (Some h) cmd w))). one_line_feed t"
    by (auto simp: api_command_def Let_def split: prod.splits sum.splits)
  with ends one written_send [OF assms, of cmd wait_lines] show ?thesis
    by simp
qed

theorem written_command_ends_with_line_feed_witness:
  "written (fst (send_serial_raw (Some \<lparr>h_port = ''COM3'', h_baud = 9600, is_open = True\<rparr>) ''t'' 1
      \<lparr>reset_error = None, write_error = None, flush_error = None, reads = [NoData]\<rparr>))
     = [[CHR ''t'', CHR 0x0A]]
   \<and> one_line_feed [CHR ''t'', CHR 0x0A]"
  using written_command_ends_with_line_feed [where cmd = "''t''" and wait_lines = 1
      and h = "\<lparr>h_port = ''COM3'', h_baud = 9600, is_open = True\<rparr>"
      and w = "\<lparr>reset_error = None, write_error = None, flush_error = None, reads = [NoData]\<rparr>"]
  by (simp add: endswith_def)


text \<open>
  The claim C8 as stated fails on a command that ends with two line feeds: it is written
  as it is.
\<close>

theorem trailing_line_feeds_kept_counterexample:
  "written (fst (send_serial_raw (Some \<lparr>h_port = ''COM3'', h_baud = 9600, is_open = True\<rparr>)
      [CHR ''t'', CHR 0x0A, CHR 0x0A] 1
      \<lparr>reset_error = None, write_error = None, flush_error = None, reads = [NoData]\<rparr>))
     = [[CHR ''t'', CHR 0x0A, CHR 0x0A]]
   \<and> \<not> one_line_feed [CHR ''t'', CHR 0x0A, CHR 0x0A]"
  by (simp add: send_serial_raw_def endswith_def one_line_feed_def before_def)

section \<open>Opening the link\<close>

text \<open>
  Claim C6. With the port resolved, when the first \<^verbatim>\<open>serial.Serial\<close> call fails: at the
  default baud rate exactly one more call is made, at the fallback rate, and if it
  succeeds the handle returned and stored is open at the fallback rate; at any other baud
  rate no other call is made and the exception of the first one is raised.
\<close>

theorem baud_fallback_only_from_default:
  assumes "(case port of None \<Rightarrow> find_serial_port (comports hst) None | Some p \<Rightarrow> Some p) = Some p"
    and "serial_open hst p baud = Some e"
  shows "(baud = DEFAULT_BAUD \<longrightarrow>
            fst (snd (open_serial hst ser port baud)) = [(p, DEFAULT_BAUD), (p, FALLBACK_BAUD)]
            \<and> (serial_open hst p FALLBACK_BAUD = None \<longrightarrow>
                 snd (snd (open_serial hst ser port baud))
                   = Inr \<lparr>h_port = p, h_baud = FALLBACK_BAUD, is_open = True\<rparr>
                 \<and> fst (open_serial hst ser port baud)
                   = Some \<lparr>h_port = p, h_baud = FALLBACK_BAUD, is_open = True\<rparr>))
       \<and> (baud \<noteq> DEFAULT_BAUD \<longrightarrow>
            fst (snd (open_serial hst ser port baud)) = [(p, baud)]
            \<and> snd (snd (open_serial hst ser port baud)) = Inl e)"
  using assms by (auto simp: open_serial_def Let_def split: option.splits)

theorem baud_fallback_only_from_default_witness:
  "fst (snd (open_serial
       \<lparr>comports = [], serial_open = (\<lambda>p b. if b = 9600 then None else Some (SerialException ''busy'')),
        close_raises = False\<rparr> None (Some ''COM3'') 112500))
     = [(''COM3'', 112500), (''COM3'', 9600)]
   \<and> snd (snd (open_serial
       \<lparr>comports = [], serial_open = (\<lambda>p b. if b = 9600 then None else Some (SerialException ''busy'')),
        close_raises = False\<rparr> None (Some ''COM3'') 112500))
     = Inr \<lparr>h_port = ''COM3'', h_baud = 9600, is_open = True\<rparr>"
  using baud_fallback_only_from_default [where port = "Some ''COM3''" and p = "''COM3''"
      and baud = 112500 and ser = None and e = "SerialException ''busy''"
      and hst = "\<lparr>comports = [],
        serial_open = (\<lambda>p b. if b = 9600 then None else Some (SerialException ''busy'')),
        close_raises = False\<rparr>"]
  by (simp add: DEFAULT_BAUD_def FALLBACK_BAUD_def)


text \<open>
  Claim C9. When a handle is stored, its close succeeds and every attempted open fails,
  \<^verbatim>\<open>ser\<close> still holds the old handle, now closed, and \<open>open_serial\<close> raises. A later
  \<open>send_serial_raw\<close> does not raise the "Serial port not opened" \<^verbatim>\<open>RuntimeError\<close>: it gets
  past the \<^verbatim>\<open>None\<close> test and fails on the closed port.
\<close>

theorem failed_reopen_leaves_closed_handle:
  assumes "(case port of None \<Rightarrow> find_serial_port (comports hst) None | Some p \<Rightarrow> Some p) = Some p"
    and "serial_open hst p baud = Some e"
    and "baud = DEFAULT_BAUD \<longrightarrow> serial_open hst p FALLBACK_BAUD \<noteq> None"
    and "\<not> close_raises hst"
  shows "fst (open_serial hst (Some h) port baud) = Some (h\<lparr>is_open := False\<rparr>)
       \<and> (\<exists>x. snd (snd (open_serial hst (Some h) port baud)) = Inl x)
       \<and> snd (send_serial_raw (fst (open_serial hst (Some h) port baud)) cmd wait_lines w)
           = Inl PortNotOpenError
       \<and> snd (send_serial_raw (fst (open_serial hst (Some h) port baud)) cmd wait_lines w)
           \<noteq> Inl (RuntimeError ''Serial port not opened'')"
proof -
  have ser: "fst (open_serial hst (Some h) port baud) = Some (h\<lparr>is_open := False\<rparr>)"
    and res: "\<exists>x. snd (snd (open_serial hst (Some h) port baud)) = Inl x"
    using assms by (auto simp: open_serial_def Let_def close_handle_def split: option.splits)
  have "snd (send_serial_raw (Some (h\<lparr>is_open := False\<rparr>)) cmd wait_lines w) = Inl PortNotOpenError"
    by (simp add: send_serial_raw_def)
  with ser res show ?thesis by simp
qed

theorem failed_reopen_leaves_closed_handle_witness:
  "fst (open_serial
       \<lparr>comports = [], serial_open = (\<lambda>p b. Some (SerialException ''unplugged'')),
        close_raises = False\<rparr>
       (Some \<lparr>h_port = ''COM3'', h_baud = 9600, is_open = True\<rparr>) (Some ''COM3'') 112500)
     = Some \<lparr>h_port = ''COM3'', h_baud = 9600, is_open = False\<rparr>
   \<and> snd (send_serial_raw (fst (open_serial
       \<lparr>comports = [], serial_open = (\<lambda>p b. Some (SerialException ''unplugged'')),
        close_raises = False\<rparr>
       (Some \<lparr>h_port = ''COM3'', h_baud = 9600, is_open = True\<rparr>) (Some ''COM3'') 112500))
       ''t'' 1 \<lparr>reset_error = None, write_error = None, flush_error = None, reads = []\<rparr>)
     = Inl PortNotOpenError"
  using failed_reopen_leaves_closed_handle [where port = "Some ''COM3''" and p = "''COM3''"
      and baud = 112500 and e = "SerialException ''unplugged''"
      and h = "\<lparr>h_port = ''COM3'', h_baud = 9600, is_open = True\<rparr>"
      and cmd = "''t''" and wait_lines = 1
      and w = "\<lparr>reset_error = None, write_error = None, flush_error = None, reads = []\<rparr>"
      and hst = "\<lparr>comports = [], serial_open = (\<lambda>p b. Some (SerialException ''unplugged'')),
        close_raises = False\<rparr>"]
  by auto


section \<open>The serial lock\<close>

text \<open>Every call that \<open>send_serial_raw\<close> and the reader loop make on the port is made
  with \<^verbatim>\<open>serial_lock\<close> held.\<close>

lemma guarded_append_held:
  "guarded True evs \<Longrightarrow> \<forall>e\<in>set evs. e \<noteq> Release SerialLock \<Longrightarrow> guarded True evs2
   \<Longrightarrow> guarded True (evs @ evs2)"
  by (induction evs) (auto split: if_splits)

lemma read_lines_events: "set (fst (read_lines n rs lines)) \<subseteq> {Readline, Sleep 10}"
  by (induction rs arbitrary: lines) (auto simp: before_fst Let_def split: read.splits)

lemma guarded_reads:
  "set evs \<subseteq> {Readline, Sleep 10} \<Longrightarrow> guarded True (evs @ [Release SerialLock])"
  by (induction evs) auto

lemma send_serial_raw_guarded: "guarded False (fst (send_serial_raw ser cmd wait_lines w))"
  using guarded_reads [OF read_lines_events]
  by (auto simp: send_serial_raw_def Let_def split: option.splits prod.splits)
     (metis fst_conv)+

lemma monitor_iteration_guarded: "guarded False (fst (monitor_iteration ser r st))"
  by (auto simp: monitor_iteration_def Let_def split: option.splits read.splits)


text \<open>
  Claim C7 fails on the code: after the trigger command, \<^verbatim>\<open>api_screenshot\<close> calls
  \<^verbatim>\<open>ser.readline()\<close> with the lock released, while \<open>send_serial_raw\<close> and the reader loop
  (above) take the lock for theirs.
\<close>

theorem screenshot_reads_outside_lock:
  "fst (api_screenshot (Some \<lparr>h_port = ''COM3'', h_baud = 9600, is_open = True\<rparr>)
       \<lparr>reset_error = None, write_error = None, flush_error = None, reads = []\<rparr> [Data ''42''])
     = [Acquire SerialLock, ResetInput, Write [CHR ''C'', CHR 0x0A], Flush, Release SerialLock,
        Readline]
   \<and> \<not> guarded False (fst (api_screenshot (Some \<lparr>h_port = ''COM3'', h_baud = 9600, is_open = True\<rparr>)
       \<lparr>reset_error = None, write_error = None, flush_error = None, reads = []\<rparr> [Data ''42'']))"
  by (simp add: api_screenshot_def send_serial_raw_def endswith_def before_def strip_def
      is_space_def)

section \<open>Screenshots\<close>

lemma accumulate_capped:
  "\<forall>r\<in>set rs. \<not> raises r \<Longrightarrow> length (concat chunks) \<le> 10000000
   \<Longrightarrow> \<exists>cs rest. snd (accumulate rs chunks) = Inr (chunks @ cs)
         \<and> nonempty_lines rs = cs @ rest
         \<and> (length (concat (chunks @ nonempty_lines rs)) \<le> 10000000 \<longrightarrow> rest = [])
         \<and> (10000000 < length (concat (chunks @ nonempty_lines rs)) \<longrightarrow>
              10000000 < length (concat (chunks @ cs))
              \<and> length (concat (butlast (chunks @ cs))) \<le> 10000000)"
proof (induction rs arbitrary: chunks)
  case Nil
  then show ?case by simp
next
  case (Cons r rs)
  show ?case
  proof (cases r)
    case NoData
    with Cons show ?thesis by (simp add: before_snd)
  next
    case (ReadError m)
    with Cons.prems show ?thesis by (simp add: raises_def)
  next
    case (Data raw)
    show ?thesis
    proof (cases "strip raw = []")
      case True
      with Data Cons show ?thesis by (simp add: before_snd)
    next
      case False
      note line = this
      show ?thesis
      proof (cases "10000000 < length (concat (chunks @ [strip raw]))")
        case True
        have "snd (accumulate (r # rs) chunks) = Inr (chunks @ [strip raw])"
          using Data line True by (simp add: Let_def)
        moreover have "nonempty_lines (r # rs) = [strip raw] @ nonempty_lines rs"
          using Data line by simp
        moreover have "\<not> length (concat (chunks @ nonempty_lines (r # rs))) \<le> 10000000"
          using Data line True by simp
        moreover have "length (concat (butlast (chunks @ [strip raw]))) \<le> 10000000"
          using Cons.prems(2) by (simp add: butlast_append)
        ultimately show ?thesis using True by blast
      next
        case False
        then have small: "length (concat (chunks @ [strip raw])) \<le> 10000000"
          by simp
        from Cons.IH [OF _ small] Cons.prems(1)
        obtain cs rest where ih: "snd (accumulate rs (chunks @ [strip raw]))
              = Inr ((chunks @ [strip raw]) @ cs)"
            "nonempty_lines rs = cs @ rest"
            "length (concat ((chunks @ [strip raw]) @ nonempty_lines rs)) \<le> 10000000
               \<longrightarrow> rest = []"
            "10000000 < length (concat ((chunks @ [strip raw]) @ nonempty_lines rs)) \<longrightarrow>
              10000000 < length (concat ((chunks @ [strip raw]) @ cs))
              \<and> length (concat (butlast ((chunks @ [strip raw]) @ cs))) \<le> 10000000"
          by auto
        have "snd (accumulate (r # rs) chunks) = Inr (chunks @ (strip raw # cs))"
          using Data line False ih(1) by (simp add: before_snd Let_def)
        moreover have "nonempty_lines (r # rs) = (strip raw # cs) @ rest"
          using Data line ih(2) by simp
        moreover have "chunks @ nonempty_lines (r # rs)
            = (chunks @ [strip raw]) @ nonempty_lines rs"
          using Data line by simp
        moreover have "chunks @ (strip raw # cs) = (chunks @ [strip raw]) @ cs"
          by simp
        ultimately show ?thesis using ih(3,4) by metis
      qed
    qed
  qed
qed

lemma strip_replicate:
  assumes "\<not> is_space c"
  shows "strip (replicate n c) = replicate n c"
proof -
  have "dropWhile is_space (replicate n c) = replicate n c"
    using assms by (cases n) simp_all
  then show ?thesis by (simp add: strip_def)
qed

lemma send_open_result:
  "is_open h \<Longrightarrow> reset_error w = None \<Longrightarrow> write_error w = None \<Longrightarrow> flush_error w = None
   \<Longrightarrow> \<exists>lines. snd (send_serial_raw (Some h) cmd n w) = Inr lines"
  by (auto simp: send_serial_raw_def Let_def split: prod.splits)

lemma hex_value_less: "hex_value c = Some v \<Longrightarrow> v < 16"
  by (auto simp: hex_value_def Let_def split: if_splits)

lemma hex_pairs_None:
  "hex_pairs s = None \<longleftrightarrow> odd (length s) \<or> (\<exists>c\<in>set s. hex_value c = None)"
  by (induction s rule: hex_pairs.induct) (auto split: option.splits)

lemma hex_pairs_Some:
  "hex_pairs s = Some bs \<Longrightarrow> length s = 2 * length bs
   \<and> (\<forall>i<length bs. \<exists>hi lo. hex_value (s ! (2 * i)) = Some hi
         \<and> hex_value (s ! (2 * i + 1)) = Some lo \<and> of_char (bs ! i) = 16 * hi + lo)"
proof (induction s arbitrary: bs rule: hex_pairs.induct)
  case 1
  then show ?case by simp
next
  case (2 c)
  then show ?case by simp
next
  case (3 a b cs)
  from "3.prems" obtain h l bs' where parts: "hex_value a = Some h" "hex_value b = Some l"
      "hex_pairs cs = Some bs'" "bs = char_of (16 * h + l) # bs'"
    by (auto split: option.splits)
  from parts(1,2) have "16 * h + l < 256"
    using hex_value_less [of a h] hex_value_less [of b l] by simp
  then have byte: "of_char (char_of (16 * h + l) :: char) = 16 * h + l"
    by simp
  have ih: "length cs = 2 * length bs'
   \<and> (\<forall>i<length bs'. \<exists>hi lo. hex_value (cs ! (2 * i)) = Some hi
         \<and> hex_value (cs ! (2 * i + 1)) = Some lo \<and> of_char (bs' ! i) = 16 * hi + lo)"
    using "3.IH" parts(3) by simp
  show ?case
  proof (intro conjI allI impI)
    show "length (a # b # cs) = 2 * length bs" using ih parts(4) by simp
  next
    fix i assume "i < length bs"
    show "\<exists>hi lo. hex_value ((a # b # cs) ! (2 * i)) = Some hi
         \<and> hex_value ((a # b # cs) ! (2 * i + 1)) = Some lo \<and> of_char (bs ! i) = 16 * hi + lo"
    proof (cases i)
      case 0
      with parts byte show ?thesis by simp
    next
      case (Suc j)
      with \<open>i < length bs\<close> parts(4) have "j < length bs'" by simp
      with ih Suc parts(4) show ?thesis by simp
    qed
  qed
qed

lemma screenshot_script_unhexlify:
  "hex_str = filter (\<lambda>c. c \<noteq> CHR 0x0A) (filter (\<lambda>c. c \<noteq> CHR 0x0D) (read_until_empty chunks))
   \<Longrightarrow> screenshot_script chunks
       = (case unhexlify hex_str of Inr bmp_data \<Rightarrow> Saved bmp_data | Inl e \<Rightarrow> Exit1)"
  by (simp only: screenshot_script_def Let_def)


text \<open>
  Claim C2, as the code has it. On an open link, when no read raises, \<^verbatim>\<open>api_screenshot\<close>
  answers with accumulated lines joined by line feeds, as text: it decodes nothing and
  accepts any text. The lines are the first non-empty stripped lines read: all of them
  when the loop ends by its timeout with no more than 10000000 characters in total, and
  otherwise those up to and including the first line with which the total passes
  10000000 characters, where the loop breaks. The decoding is in the standalone script:
  it exits with status 1, writing no file, exactly when the text without line terminators
  has odd length or a character that is not a hexadecimal digit; otherwise the file it
  writes has one byte for each pair of digits, with the pair's value.
\<close>

theorem screenshot_endpoint_returns_hex_text:
  assumes "is_open h"
    and "reset_error w = None" and "write_error w = None" and "flush_error w = None"
    and "\<forall>r\<in>set rs. \<not> raises r"
    and "hex_str = filter (\<lambda>c. c \<noteq> CHR 0x0A) (filter (\<lambda>c. c \<noteq> CHR 0x0D) (read_until_empty chunks))"
  shows "(\<exists>hex_chunks rest.
            snd (api_screenshot (Some h) w rs) = ScreenshotOk (join [CHR 0x0A] hex_chunks)
            \<and> nonempty_lines rs = hex_chunks @ rest
            \<and> (length (concat (nonempty_lines rs)) \<le> 10000000 \<longrightarrow> rest = [])
            \<and> (10000000 < length (concat (nonempty_lines rs)) \<longrightarrow>
                 10000000 < length (concat hex_chunks)
                 \<and> length (concat (butlast hex_chunks)) \<le> 10000000))
       \<and> (screenshot_script chunks = Exit1
            \<longleftrightarrow> odd (length hex_str) \<or> (\<exists>c\<in>set hex_str. hex_value c = None))
       \<and> (\<forall>bmp_data. screenshot_script chunks = Saved bmp_data \<longrightarrow>
             length hex_str = 2 * length bmp_data
             \<and> (\<forall>i<length bmp_data. \<exists>hi lo. hex_value (hex_str ! (2 * i)) = Some hi
                   \<and> hex_value (hex_str ! (2 * i + 1)) = Some lo
                   \<and> of_char (bmp_data ! i) = 16 * hi + lo))"
proof -
  obtain lines where sent: "snd (send_serial_raw (Some h) ''C'' 1 w) = Inr lines"
    using send_open_result [OF assms(1-4)] by blast
  obtain hex_chunks rest where acc: "snd (accumulate rs []) = Inr hex_chunks"
      "nonempty_lines rs = hex_chunks @ rest"
      "length (concat (nonempty_lines rs)) \<le> 10000000 \<longrightarrow> rest = []"
      "10000000 < length (concat (nonempty_lines rs)) \<longrightarrow>
         10000000 < length (concat hex_chunks)
         \<and> length (concat (butlast hex_chunks)) \<le> 10000000"
    using accumulate_capped [of rs "[]"] assms(5) by auto
  have "snd (api_screenshot (Some h) w rs) = ScreenshotOk (join [CHR 0x0A] hex_chunks)"
    using sent acc(1) by (auto simp: api_screenshot_def split: prod.splits sum.splits)
  with acc(2-4) have api: "\<exists>hex_chunks rest.
            snd (api_screenshot (Some h) w rs) = ScreenshotOk (join [CHR 0x0A] hex_chunks)
            \<and> nonempty_lines rs = hex_chunks @ rest
            \<and> (length (concat (nonempty_lines rs)) \<le> 10000000 \<longrightarrow> rest = [])
            \<and> (10000000 < length (concat (nonempty_lines rs)) \<longrightarrow>
                 10000000 < length (concat hex_chunks)
                 \<and> length (concat (butlast hex_chunks)) \<le> 10000000)"
    by blast
  have exit: "screenshot_script chunks = Exit1
      \<longleftrightarrow> odd (length hex_str) \<or> (\<exists>c\<in>set hex_str. hex_value c = None)"
    using hex_pairs_None [of hex_str]
    by (auto simp: screenshot_script_unhexlify [OF assms(6)] unhexlify_def
        split: sum.splits option.splits)
  have saved: "length hex_str = 2 * length bmp_data
             \<and> (\<forall>i<length bmp_data. \<exists>hi lo. hex_value (hex_str ! (2 * i)) = Some hi
                   \<and> hex_value (hex_str ! (2 * i + 1)) = Some lo
                   \<and> of_char (bmp_data ! i) = 16 * hi + lo)"
    if "screenshot_script chunks = Saved bmp_data" for bmp_data
  proof -
    from that have "hex_pairs hex_str = Some bmp_data"
      by (auto simp: screenshot_script_unhexlify [OF assms(6)] unhexlify_def
          split: sum.splits option.splits if_splits)
    then show ?thesis by (rule hex_pairs_Some)
  qed
  from api exit saved show ?thesis by blast
qed

theorem screenshot_endpoint_returns_hex_text_witness:
  "snd (api_screenshot (Some \<lparr>h_port = ''COM3'', h_baud = 9600, is_open = True\<rparr>)
       \<lparr>reset_error = None, write_error = None, flush_error = None, reads = [NoData]\<rparr>
       [Data ''4865'', NoData, Data ''6C6C6F''])
     = ScreenshotOk (''4865'' @ [CHR 0x0A] @ ''6C6C6F'')
   \<and> snd (api_screenshot (Some \<lparr>h_port = ''COM3'', h_baud = 9600, is_open = True\<rparr>)
       \<lparr>reset_error = None, write_error = None, flush_error = None, reads = [NoData]\<rparr>
       [Data (replicate 10000001 CHR ''A''), Data ''FF''])
     = ScreenshotOk (replicate 10000001 CHR ''A'')
   \<and> screenshot_script [''4865'', ''6C6C6F'' @ [CHR 0x0D, CHR 0x0A], []] = Saved ''Hello''
   \<and> screenshot_script [''486'', []] = Exit1"
proof -
  let ?h = "\<lparr>h_port = ''COM3'', h_baud = 9600, is_open = True\<rparr>"
  let ?w = "\<lparr>reset_error = None, write_error = None, flush_error = None, reads = [NoData]\<rparr>"
  let ?rs = "[Data ''4865'', NoData, Data ''6C6C6F'']"
  have lines: "nonempty_lines ?rs = [''4865'', ''6C6C6F'']"
    by (simp add: strip_def is_space_def)
  have "\<exists>hex_chunks rest.
      snd (api_screenshot (Some ?h) ?w ?rs) = ScreenshotOk (join [CHR 0x0A] hex_chunks)
      \<and> nonempty_lines ?rs = hex_chunks @ rest
      \<and> (length (concat (nonempty_lines ?rs)) \<le> 10000000 \<longrightarrow> rest = [])
      \<and> (10000000 < length (concat (nonempty_lines ?rs)) \<longrightarrow>
           10000000 < length (concat hex_chunks)
           \<and> length (concat (butlast hex_chunks)) \<le> 10000000)"
    by (rule conjunct1 [OF screenshot_endpoint_returns_hex_text [OF _ _ _ _ _ refl,
          where chunks = "[]"]])
      (simp_all add: raises_def)
  then obtain hex_chunks rest where small:
      "snd (api_screenshot (Some ?h) ?w ?rs) = ScreenshotOk (join [CHR 0x0A] hex_chunks)"
      "nonempty_lines ?rs = hex_chunks @ rest"
      "length (concat (nonempty_lines ?rs)) \<le> 10000000 \<longrightarrow> rest = []"
    by blast
  from small(2,3) have "hex_chunks = [''4865'', ''6C6C6F'']"
    unfolding lines by simp
  with small(1) have a: "snd (api_screenshot (Some ?h) ?w ?rs)
     = ScreenshotOk (''4865'' @ [CHR 0x0A] @ ''6C6C6F'')"
    by simp
  define big where "big = replicate 10000001 CHR ''A''"
  have len: "length big = 10000001"
    by (simp add: big_def)
  have "strip big = big"
    unfolding big_def by (rule strip_replicate) (simp add: is_space_def)
  moreover from len have "big \<noteq> []"
    by auto
  ultimately have lines2: "nonempty_lines [Data big, Data ''FF''] = [big, ''FF'']"
    by (simp add: strip_def is_space_def)
  have "\<exists>hex_chunks rest.
      snd (api_screenshot (Some ?h) ?w [Data big, Data ''FF''])
        = ScreenshotOk (join [CHR 0x0A] hex_chunks)
      \<and> nonempty_lines [Data big, Data ''FF''] = hex_chunks @ rest
      \<and> (length (concat (nonempty_lines [Data big, Data ''FF''])) \<le> 10000000 \<longrightarrow> rest = [])
      \<and> (10000000 < length (concat (nonempty_lines [Data big, Data ''FF''])) \<longrightarrow>
           10000000 < length (concat hex_chunks)
           \<and> length (concat (butlast hex_chunks)) \<le> 10000000)"
    by (rule conjunct1 [OF screenshot_endpoint_returns_hex_text [OF _ _ _ _ _ refl,
          where chunks = "[]"]])
      (simp_all add: raises_def)
  then obtain hex_chunks2 rest2 where capped:
      "snd (api_screenshot (Some ?h) ?w [Data big, Data ''FF''])
         = ScreenshotOk (join [CHR 0x0A] hex_chunks2)"
      "nonempty_lines [Data big, Data ''FF''] = hex_chunks2 @ rest2"
      "10000000 < length (concat (nonempty_lines [Data big, Data ''FF''])) \<longrightarrow>
           10000000 < length (concat hex_chunks2)
           \<and> length (concat (butlast hex_chunks2)) \<le> 10000000"
    by blast
  from capped(3) have over: "10000000 < length (concat hex_chunks2)"
      "length (concat (butlast hex_chunks2)) \<le> 10000000"
    unfolding lines2 by (simp_all add: len)
  from capped(2) have "hex_chunks2 = [] \<or> hex_chunks2 = [big] \<or> hex_chunks2 = [big, ''FF'']"
    unfolding lines2 by (auto simp: append_eq_Cons_conv Cons_eq_append_conv)
  with over have "hex_chunks2 = [big]"
    by (auto simp: len)
  with capped(1) have b: "snd (api_screenshot (Some ?h) ?w
       [Data (replicate 10000001 CHR ''A''), Data ''FF''])
     = ScreenshotOk (replicate 10000001 CHR ''A'')"
    by (simp add: big_def)
  have c: "screenshot_script [''4865'', ''6C6C6F'' @ [CHR 0x0D, CHR 0x0A], []] = Saved ''Hello''"
    by code_simp
  have d: "screenshot_script [''486'', []] = Exit1"
    by (simp add: screenshot_script_def read_until_empty_def unhexlify_def)
  from a b c d show ?thesis by simp
qed


text \<open>
  The claim C2 as stated fails on \<^verbatim>\<open>api_screenshot\<close>: text that is not hexadecimal, or of
  odd length, comes back as a successful response.
\<close>

theorem screenshot_endpoint_no_decode_counterexample:
  "snd (api_screenshot (Some \<lparr>h_port = ''COM3'', h_baud = 9600, is_open = True\<rparr>)
       \<lparr>reset_error = None, write_error = None, flush_error = None, reads = [NoData]\<rparr>
       [Data ''4G'']) = ScreenshotOk ''4G''
   \<and> unhexlify ''4G'' = Inl (BinasciiError ''Non-hexadecimal digit found'')
   \<and> snd (api_screenshot (Some \<lparr>h_port = ''COM3'', h_baud = 9600, is_open = True\<rparr>)
       \<lparr>reset_error = None, write_error = None, flush_error = None, reads = [NoData]\<rparr>
       [Data ''486'']) = ScreenshotOk ''486''
   \<and> unhexlify ''486'' = Inl (BinasciiError ''Odd-length string'')"
  by (simp add: api_screenshot_def send_serial_raw_def endswith_def before_def strip_def
      is_space_def unhexlify_def hex_value_def)

section \<open>Rounding to a float\<close>

text \<open>Rounding to the nearest integer, the binary exponent of a rational, and the relative
  error of \<open>round_double\<close>.\<close>

lemma round_half_even_int: "round_half_even (of_int n) = n"
  by (simp add: round_half_even_def)

lemma round_half_even_error: "\<bar>of_int (round_half_even x) - x\<bar> \<le> 1 / 2"
proof -
  have "of_int \<lfloor>x\<rfloor> \<le> x" "x < of_int \<lfloor>x\<rfloor> + 1" by linarith+
  then show ?thesis
    by (auto simp: round_half_even_def Let_def abs_le_iff)
qed

lemma round_half_even_near:
  assumes "\<bar>x - of_int n\<bar> < 1 / 2"
  shows "round_half_even x = n"
proof -
  have fl: "of_int \<lfloor>x\<rfloor> \<le> x" "x < of_int \<lfloor>x\<rfloor> + 1" by linarith+
  from assms have n: "of_int n - 1 / 2 < x" "x < of_int n + 1 / 2" by linarith+
  consider "\<lfloor>x\<rfloor> = n" | "\<lfloor>x\<rfloor> = n - 1"
  proof -
    have "of_int \<lfloor>x\<rfloor> < (of_int n :: rat) + 1" using fl n by linarith
    then have "of_int \<lfloor>x\<rfloor> < (of_int (n + 1) :: rat)" by simp
    then have "\<lfloor>x\<rfloor> < n + 1" by (simp only: of_int_less_iff)
    moreover have "(of_int n :: rat) - 1 < of_int \<lfloor>x\<rfloor> + 1" using fl n by linarith
    then have "(of_int (n - 1) :: rat) < of_int (\<lfloor>x\<rfloor> + 1)" by simp
    then have "n - 1 < \<lfloor>x\<rfloor> + 1" by (simp only: of_int_less_iff)
    ultimately have "\<lfloor>x\<rfloor> = n \<or> \<lfloor>x\<rfloor> = n - 1" by linarith
    then show ?thesis using that by blast
  qed
  then show ?thesis
  proof cases
    case 1
    then have "x - of_int \<lfloor>x\<rfloor> < 1 / 2" using n by simp
    with 1 show ?thesis by (simp add: round_half_even_def Let_def)
  next
    case 2
    then have "1 / 2 < x - of_int \<lfloor>x\<rfloor>" using n by simp
    with 2 show ?thesis by (simp add: round_half_even_def Let_def)
  qed
qed

lemma quotient_of_abs_pos:
  assumes "x \<noteq> 0" and "quotient_of \<bar>x\<bar> = (p, q)"
  shows "0 < p" "0 < q" "\<bar>x\<bar> = of_int p / of_int q"
proof -
  show q: "0 < q" using assms(2) by (rule quotient_of_denom_pos)
  show x: "\<bar>x\<bar> = of_int p / of_int q" using assms(2) by (rule quotient_of_div)
  have "0 < \<bar>x\<bar>" using assms(1) by simp
  with x q show "0 < p" by (simp add: zero_less_divide_iff)
qed

lemma bitlen_power:
  assumes "0 < p"
  shows "(2::rat) powi (bitlen p - 1) \<le> of_int p" "of_int p < (2::rat) powi (bitlen p)"
proof -
  from bitlen_bounds [OF assms] have b: "2 ^ nat (bitlen p - 1) \<le> p" "p < 2 ^ nat (bitlen p)"
    by auto
  have ge: "1 \<le> bitlen p" using assms bitlen_eq_zero_iff [of p] bitlen_nonneg [of p] by linarith
  have "(2::rat) powi (bitlen p - 1) = 2 ^ nat (bitlen p - 1)"
    using ge by (simp add: power_int_def)
  also have "\<dots> = of_int (2 ^ nat (bitlen p - 1))" by simp
  also have "\<dots> \<le> of_int p" using b(1) by (simp only: of_int_le_iff)
  finally show "(2::rat) powi (bitlen p - 1) \<le> of_int p" .
  have "(of_int p :: rat) < of_int (2 ^ nat (bitlen p))" using b(2) by (simp only: of_int_less_iff)
  also have "\<dots> = 2 ^ nat (bitlen p)" by simp
  also have "\<dots> = (2::rat) powi (bitlen p)" using ge by (simp add: power_int_def)
  finally show "of_int p < (2::rat) powi (bitlen p)" .
qed

lemma ilog2_bounds:
  assumes "x \<noteq> 0"
  shows "2 powi (ilog2 x) \<le> \<bar>x\<bar>" "\<bar>x\<bar> < 2 powi (ilog2 x + 1)"
proof -
  obtain p q where pq: "quotient_of \<bar>x\<bar> = (p, q)" by (cases "quotient_of \<bar>x\<bar>")
  note pos = quotient_of_abs_pos [OF assms pq]
  let ?e = "bitlen p - bitlen q"
  note bp = bitlen_power [OF pos(1)] and bq = bitlen_power [OF pos(2)]
  have qpos: "(0::rat) < of_int q" using pos(2) by simp
  have low: "(2::rat) powi (?e - 1) \<le> \<bar>x\<bar>"
  proof -
    have "(2::rat) powi (?e - 1) = 2 powi (bitlen p - 1) / 2 powi (bitlen q)"
      by (simp add: power_int_diff)
    also have "\<dots> \<le> of_int p / 2 powi (bitlen q)"
      using bp(1) by (simp add: divide_right_mono)
    also have "\<dots> \<le> of_int p / of_int q"
      using bq(2) pos(1) qpos by (simp add: frac_le)
    finally show ?thesis using pos(3) by simp
  qed
  have up: "\<bar>x\<bar> < (2::rat) powi (?e + 1)"
  proof -
    have "\<bar>x\<bar> = of_int p / of_int q" by (rule pos(3))
    also have "\<dots> < 2 powi (bitlen p) / of_int q"
      using bp(2) qpos by (simp add: divide_strict_right_mono)
    also have "\<dots> \<le> 2 powi (bitlen p) / 2 powi (bitlen q - 1)"
      using bq(1) qpos by (intro divide_left_mono mult_pos_pos) auto
    also have "\<dots> = 2 powi (?e + 1)"
      by (simp add: power_int_diff power_int_add)
    finally show ?thesis .
  qed
  have il: "ilog2 x = (if 2 powi ?e \<le> \<bar>x\<bar> then ?e else ?e - 1)"
    by (simp add: ilog2_def pq Let_def)
  show "2 powi (ilog2 x) \<le> \<bar>x\<bar>" using low by (simp add: il)
  show "\<bar>x\<bar> < 2 powi (ilog2 x + 1)" using up by (auto simp: il)
qed

lemma round_double_int:
  assumes "\<bar>n\<bar> < 2 ^ 53"
  shows "round_double (of_int n) = of_int n"
proof (cases "n = 0")
  case True
  then show ?thesis by (simp add: round_double_def)
next
  case False
  let ?x = "of_int n :: rat"
  have x: "?x \<noteq> 0" using False by simp
  have "(2::rat) powi (ilog2 ?x) \<le> \<bar>?x\<bar>" by (rule ilog2_bounds(1) [OF x])
  also have "\<bar>?x\<bar> = of_int \<bar>n\<bar>" by simp
  also have "\<dots> < of_int (2 ^ 53)" using assms by (simp only: of_int_less_iff)
  also have "\<dots> = (2::rat) powi 53" by simp
  finally have "ilog2 ?x < 53"
    by (rule power_int_le_imp_less_exp [rotated]) simp_all
  then have q: "max (ilog2 ?x) (- 1022) - 52 \<le> 0" by simp
  define k where "k = nat (- (max (ilog2 ?x) (- 1022) - 52))"
  have pw: "(2::rat) powi (max (ilog2 ?x) (- 1022) - 52) = 1 / 2 ^ k"
    using q by (simp add: power_int_def k_def field_simps)
  have "?x / (1 / 2 ^ k) = of_int (n * 2 ^ k)" by simp
  then have "round_half_even (?x / (1 / 2 ^ k)) = n * 2 ^ k"
    by (simp only: round_half_even_int)
  then show ?thesis
    using x by (simp add: round_double_def Let_def pw)
qed

lemma round_double_error:
  assumes "2 powi (- 1022) \<le> \<bar>x\<bar>"
  shows "\<bar>round_double x - x\<bar> \<le> \<bar>x\<bar> / 2 ^ 53"
proof -
  have x: "x \<noteq> 0"
  proof
    assume "x = 0"
    with assms have "(2::rat) powi (- 1022) \<le> 0" by simp
    moreover have "(0::rat) < 2 powi (- 1022)" by (rule zero_less_power_int) simp
    ultimately show False by simp
  qed
  let ?e = "ilog2 x"
  have "- 1022 < ?e + 1"
  proof (rule ccontr)
    assume "\<not> - 1022 < ?e + 1"
    then have "(2::rat) powi (?e + 1) \<le> 2 powi (- 1022)"
      by (intro power_int_increasing) simp_all
    with ilog2_bounds(2) [OF x] assms show False by simp
  qed
  then have mx: "max ?e (- 1022) = ?e" by simp
  define s :: rat where "s = 2 powi (?e - 52)"
  have s: "0 < s" by (simp add: s_def)
  have rd: "round_double x = of_int (round_half_even (x / s)) * s"
    using x by (simp add: round_double_def Let_def mx s_def)
  have "\<bar>of_int (round_half_even (x / s)) * s - x\<bar>
      = \<bar>of_int (round_half_even (x / s)) - x / s\<bar> * s"
  proof -
    have "of_int (round_half_even (x / s)) * s - x = (of_int (round_half_even (x / s)) - x / s) * s"
      using s by (simp add: left_diff_distrib)
    then show ?thesis using s by (simp only: abs_mult abs_of_pos)
  qed
  also have "\<dots> \<le> (1 / 2) * s"
    using round_half_even_error [of "x / s"] s by (intro mult_right_mono) simp_all
  also have "\<dots> = 2 powi ?e / 2 ^ 53"
    by (simp add: s_def power_int_diff)
  also have "\<dots> \<le> \<bar>x\<bar> / 2 ^ 53"
    using ilog2_bounds(1) [OF x] by (simp add: divide_right_mono)
  finally show ?thesis by (simp add: rd)
qed

lemma round_half_even_nonneg: "0 \<le> x \<Longrightarrow> 0 \<le> round_half_even x"
  by (auto simp: round_half_even_def Let_def)

lemma tiny_bound: "(2::rat) powi (- 1022) \<le> 1 / 10 ^ 6"
proof -
  have "(2::rat) powi (- 1022) \<le> 2 powi (- 20)"
    by (intro power_int_increasing) simp_all
  also have "\<dots> \<le> 1 / 10 ^ 6" by (simp add: power_int_minus_divide)
  finally show ?thesis .
qed

lemma scaled_division:
  fixes X :: int and D :: rat
  assumes X: "\<bar>X\<bar> < 2 ^ 52" and D: "1 \<le> D" "D \<le> 10 ^ 6"
  defines "y \<equiv> round_double (of_int X / D)"
  shows "to_float (of_int X / D) = Finite y"
    and "(y < 0) = (X < 0)"
    and "\<bar>y * D - of_int X\<bar> \<le> of_int \<bar>X\<bar> / 2 ^ 53"
proof -
  define x :: rat where "x = of_int X / D"
  have Dpos: "0 < D" using D(1) by simp
  have y: "y = round_double x" by (simp add: y_def x_def)
  have all: "to_float x = Finite y \<and> (y < 0) = (X < 0) \<and> \<bar>y * D - of_int X\<bar> \<le> of_int \<bar>X\<bar> / 2 ^ 53"
  proof (cases "X = 0")
    case True
    then show ?thesis by (simp add: y x_def round_double_def to_float_def)
  next
    case False
    then have "1 \<le> \<bar>X\<bar>" by simp
    then have "(of_int 1 :: rat) \<le> of_int \<bar>X\<bar>" by (simp only: of_int_le_iff)
    then have X1: "(1::rat) \<le> of_int \<bar>X\<bar>" by simp
    have ax: "\<bar>x\<bar> = of_int \<bar>X\<bar> / D" using Dpos by (simp add: x_def)
    note tiny_bound
    also have "1 / 10 ^ 6 \<le> 1 / D" using D Dpos by (simp add: frac_le)
    also have "\<dots> \<le> of_int \<bar>X\<bar> / D" using X1 Dpos by (simp add: divide_right_mono)
    finally have big: "(2::rat) powi (- 1022) \<le> \<bar>x\<bar>"
      by (simp only: ax)
    have "0 < of_int \<bar>X\<bar> / D" using X1 Dpos by simp
    then have xpos: "0 < \<bar>x\<bar>" by (simp only: ax)
    have err: "\<bar>y - x\<bar> \<le> \<bar>x\<bar> / 2 ^ 53"
      unfolding y by (rule round_double_error [OF big])
    have "\<bar>x\<bar> / 2 ^ 53 < \<bar>x\<bar>" using xpos by (simp add: field_simps)
    with err have close: "\<bar>y - x\<bar> < \<bar>x\<bar>" by (rule le_less_trans)
    then have sign: "(y < 0) = (x < 0)" "y \<noteq> 0" by (auto simp: abs_if split: if_splits)
    have xs: "(x < 0) = (X < 0)" using Dpos by (simp add: x_def divide_less_0_iff)
    have "y * D - of_int X = (y - x) * D" using Dpos by (simp add: x_def left_diff_distrib)
    then have "\<bar>y * D - of_int X\<bar> = \<bar>y - x\<bar> * D"
      using Dpos by (simp only: abs_mult abs_of_pos)
    also have "\<dots> \<le> \<bar>x\<bar> / 2 ^ 53 * D"
      using err Dpos by (intro mult_right_mono) simp_all
    also have "\<dots> = of_int \<bar>X\<bar> / 2 ^ 53" using Dpos by (simp add: ax)
    finally have scaled: "\<bar>y * D - of_int X\<bar> \<le> of_int \<bar>X\<bar> / 2 ^ 53" .
    have "of_int \<bar>X\<bar> / D \<le> of_int \<bar>X\<bar> / 1"
      using D(1) X1 by (intro divide_left_mono) simp_all
    then have xX: "\<bar>x\<bar> \<le> of_int \<bar>X\<bar>" by (simp add: ax)
    have "\<bar>y\<bar> \<le> \<bar>y - x\<bar> + \<bar>x\<bar>" by linarith
    also have "\<dots> \<le> 2 * \<bar>x\<bar>" using close by simp
    also have "\<dots> \<le> 2 * of_int \<bar>X\<bar>" using xX by simp
    also have "\<dots> < 2 * of_int (2 ^ 52)"
      using X by (simp only: mult_less_cancel_left_pos zero_less_numeral of_int_less_iff)
    also have "\<dots> \<le> 2 ^ 1024" by simp
    finally have "\<not> 2 ^ 1024 \<le> \<bar>y\<bar>" by simp
    then have "to_float x = Finite y"
      using sign(2) by (simp add: to_float_def Let_def y [symmetric])
    with sign(1) xs scaled show ?thesis by simp
  qed
  from all show "to_float (of_int X / D) = Finite y" by (simp add: x_def)
  from all show "(y < 0) = (X < 0)" by simp
  from all show "\<bar>y * D - of_int X\<bar> \<le> of_int \<bar>X\<bar> / 2 ^ 53" by simp
qed

lemma small_error:
  fixes X :: int
  assumes "\<bar>X\<bar> < 2 ^ 52"
  shows "(of_int \<bar>X\<bar> :: rat) / 2 ^ 53 < 1 / 2"
proof -
  have "(of_int \<bar>X\<bar> :: rat) < of_int (2 ^ 52)" using assms by (simp only: of_int_less_iff)
  then show ?thesis by simp
qed

lemma float_of_int_small:
  assumes "\<bar>X\<bar> < 2 ^ 52"
  shows "float_of_int X = Inr (Finite (of_int X))"
proof -
  have "\<bar>X\<bar> < 2 ^ 53" using assms by simp
  moreover have "\<not> 2 ^ 1024 - 2 ^ 970 \<le> \<bar>X\<bar>" using assms by simp
  ultimately show ?thesis by (simp add: float_of_int_def round_double_int)
qed

section \<open>The frequency display\<close>

lemma format_exact:
  fixes X :: int
  assumes X: "\<bar>X\<bar> < 2 ^ 52" and prec: "prec \<le> 6"
  shows "format_f prec (fdiv (Finite (of_int X)) (10 ^ prec)) = fixed_str (X < 0) prec (nat \<bar>X\<bar>)"
proof -
  define D :: rat where "D = 10 ^ prec"
  define y where "y = round_double (of_int X / D)"
  have D: "1 \<le> D" "D \<le> 10 ^ 6"
    unfolding D_def using prec by (simp, intro power_increasing) simp_all
  note sd = scaled_division [OF X D, folded y_def]
  have Dpos: "0 < D" using D(1) by simp
  have "\<bar>\<bar>y * D\<bar> - \<bar>of_int X\<bar>\<bar> \<le> \<bar>y * D - of_int X\<bar>" by (rule abs_triangle_ineq3)
  also have "\<dots> \<le> of_int \<bar>X\<bar> / 2 ^ 53" by (rule sd(3))
  also have "\<dots> < 1 / 2" by (rule small_error [OF X])
  finally have "\<bar>\<bar>y * D\<bar> - \<bar>of_int X\<bar>\<bar> < 1 / 2" .
  moreover have "\<bar>y * D\<bar> = \<bar>y\<bar> * D" using Dpos by (simp only: abs_mult abs_of_pos)
  moreover have "\<bar>of_int X :: rat\<bar> = of_int \<bar>X\<bar>" by simp
  ultimately have "\<bar>\<bar>y\<bar> * D - of_int \<bar>X\<bar>\<bar> < 1 / 2" by (simp only:)
  then have "round_half_even (\<bar>y\<bar> * D) = \<bar>X\<bar>" by (rule round_half_even_near)
  then show ?thesis
    using sd(1,2) by (simp add: fdiv_def format_f_def D_def)
qed

lemma format_two_decimals:
  fixes k :: int
  assumes k: "\<bar>k\<bar> < 2 ^ 52"
  shows "\<exists>m. format_f 2 (fdiv (Finite (of_int k)) 1000) = fixed_str (k < 0) 2 m
           \<and> \<bar>10 * int m - \<bar>k\<bar>\<bar> \<le> 5"
proof -
  define y where "y = round_double (of_int k / 1000)"
  have D: "(1::rat) \<le> 1000" "(1000::rat) \<le> 10 ^ 6" by simp_all
  note sd = scaled_division [OF k D, folded y_def]
  define z where "z = \<bar>y\<bar> * 100"
  define m where "m = round_half_even z"
  have z0: "0 \<le> z" by (simp add: z_def)
  then have m0: "0 \<le> m" unfolding m_def by (rule round_half_even_nonneg)
  have "\<bar>\<bar>y * 1000\<bar> - \<bar>of_int k\<bar>\<bar> \<le> \<bar>y * 1000 - of_int k\<bar>" by (rule abs_triangle_ineq3)
  also have "\<dots> \<le> of_int \<bar>k\<bar> / 2 ^ 53" by (rule sd(3))
  also have "\<dots> < 1 / 2" by (rule small_error [OF k])
  finally have "\<bar>\<bar>y * 1000\<bar> - \<bar>of_int k\<bar>\<bar> < 1 / 2" .
  moreover have "\<bar>y * 1000\<bar> = z * 10" by (simp add: z_def abs_mult)
  moreover have "\<bar>of_int k :: rat\<bar> = of_int \<bar>k\<bar>" by simp
  ultimately have a: "\<bar>z * 10 - of_int \<bar>k\<bar>\<bar> < 1 / 2" by (simp only:)
  have b: "\<bar>of_int m - z\<bar> \<le> 1 / 2" unfolding m_def by (rule round_half_even_error)
  have "(of_int (10 * m - \<bar>k\<bar>) :: rat) = 10 * (of_int m - z) + (z * 10 - of_int \<bar>k\<bar>)"
    by simp
  then have "\<bar>of_int (10 * m - \<bar>k\<bar>) :: rat\<bar> \<le> 10 * \<bar>of_int m - z\<bar> + \<bar>z * 10 - of_int \<bar>k\<bar>\<bar>"
    by linarith
  also have "\<dots> < 5 + 1 / 2"
  proof (rule add_le_less_mono)
    show "10 * \<bar>of_int m - z\<bar> \<le> 5" using b by simp
    show "\<bar>z * 10 - of_int \<bar>k\<bar>\<bar> < 1 / 2" by (rule a)
  qed
  also have "\<dots> < (6::rat)" by simp
  finally have "(of_int \<bar>10 * m - \<bar>k\<bar>\<bar> :: rat) < of_int 6" by simp
  then have "\<bar>10 * m - \<bar>k\<bar>\<bar> < 6" by (simp only: of_int_less_iff)
  then have "\<bar>10 * int (nat m) - \<bar>k\<bar>\<bar> \<le> 5" using m0 by simp
  moreover have "format_f 2 (fdiv (Finite (of_int k)) 1000) = fixed_str (k < 0) 2 (nat m)"
    using sd(1,2) by (simp add: fdiv_def format_f_def m_def z_def)
  ultimately show ?thesis by blast
qed

lemma float_of_int_overflow:
  "2 ^ 1024 - 2 ^ 970 \<le> \<bar>n\<bar> \<Longrightarrow> \<exists>e. float_of_int n = Inl e"
  by (simp add: float_of_int_def)

lemma float_of_int_convertible:
  "\<bar>n\<bar> < 2 ^ 1024 - 2 ^ 970 \<Longrightarrow> \<exists>x. float_of_int n = Inr x"
  by (simp add: float_of_int_def)

lemma float_range_prints: "(2::int) ^ 1024 \<le> 10 ^ int_max_str_digits"
proof -
  have "(2::int) ^ 1024 \<le> 10 ^ 1024" by (rule power_mono) simp_all
  also have "\<dots> \<le> 10 ^ int_max_str_digits"
    unfolding int_max_str_digits_def by (rule power_increasing) simp_all
  finally show ?thesis .
qed

lemma str_int_convertible:
  assumes "\<bar>n\<bar> < 2 ^ 1024"
  shows "str_int n = Inr (decimal n)"
proof -
  from assms float_range_prints have "\<bar>n\<bar> < 10 ^ int_max_str_digits" by (rule less_le_trans)
  then show ?thesis by (rule str_int_small)
qed

lemma str_int_refused: "10 ^ int_max_str_digits \<le> \<bar>n\<bar> \<Longrightarrow> str_int n = Inl str_limit_error"
  by (simp add: str_int_def)

lemma beyond_digit_limit_overflows:
  fixes n :: int
  assumes "10 ^ int_max_str_digits \<le> \<bar>n\<bar>"
  shows "2 ^ 1024 - 2 ^ 970 \<le> \<bar>n\<bar>"
proof -
  have "(2::int) ^ 1024 - 2 ^ 970 \<le> 2 ^ 1024" by simp
  also note float_range_prints
  also note assms
  finally show ?thesis .
qed

lemmas char_eval = upper_def upper_char_def decimal_def str_nat.simps digit_char_def
  fixed_str_def zfill_def char_of_def bit_iff_odd

text \<open>
  Claim C1, as the code has it, for an integer raw frequency \<open>k\<close> (kHz), an integer BFO
  offset \<open>b\<close> (Hz) and a mode text. The mode is compared in upper case. While the value to
  convert is below \<open>2^52\<close> in magnitude, the float arithmetic does not disturb the digits:
  in the modes USB, LSB and SSB the display is \<open>k * 1000 + b\<close> hertz written in megahertz
  with its six decimals; in FM it is \<open>k / 1000\<close> with two decimals, the value shown being
  within half a unit of the last place; in AM it is the integer \<open>k\<close> in kHz below 1000,
  and megahertz with the three decimals of \<open>k\<close> from 1000 on; in any other mode megahertz
  with three decimals. A raw value that is a text which \<^verbatim>\<open>int\<close> refuses, or \<^verbatim>\<open>None\<close>, is
  shown as it is, followed by \<^verbatim>\<open>(raw)\<close>. An integer too large to convert to a float
  (\<open>2^1024 - 2^970\<close> and beyond) is shown in the same way as long as it has at most
  \<open>int_max_str_digits\<close> digits; with more digits the handler's own f-string raises, and
  \<open>format_frequency\<close> raises that \<^verbatim>\<open>ValueError\<close>.
\<close>

theorem format_frequency_by_mode:
  fixes k b :: int and mode s :: string and bfo md :: pyval
  shows "(upper mode \<in> set [''USB'', ''LSB'', ''SSB''] \<and> \<bar>k * 1000 + b\<bar> < 2 ^ 52 \<longrightarrow>
            format_frequency (PInt k) (PInt b) (PStr mode)
              = Inr (fixed_str (k * 1000 + b < 0) 6 (nat \<bar>k * 1000 + b\<bar>) @ '' MHz''))
       \<and> (upper mode = ''FM'' \<and> \<bar>k\<bar> < 2 ^ 52 \<longrightarrow>
            (\<exists>m. format_frequency (PInt k) (PInt b) (PStr mode)
                    = Inr (fixed_str (k < 0) 2 m @ '' MHz'')
                  \<and> \<bar>10 * int m - \<bar>k\<bar>\<bar> \<le> 5))
       \<and> (upper mode = ''AM'' \<and> k < 1000 \<and> \<bar>k\<bar> < 2 ^ 1024 - 2 ^ 970 \<longrightarrow>
            format_frequency (PInt k) (PInt b) (PStr mode) = Inr (decimal k @ '' kHz''))
       \<and> (upper mode = ''AM'' \<and> 1000 \<le> k \<and> k < 2 ^ 52 \<longrightarrow>
            format_frequency (PInt k) (PInt b) (PStr mode)
              = Inr (fixed_str False 3 (nat k) @ '' MHz''))
       \<and> (upper mode \<notin> set [''USB'', ''LSB'', ''SSB'', ''FM'', ''AM''] \<and> \<bar>k\<bar> < 2 ^ 52 \<longrightarrow>
            format_frequency (PInt k) (PInt b) (PStr mode)
              = Inr (fixed_str (k < 0) 3 (nat \<bar>k\<bar>) @ '' MHz''))
       \<and> (py_int s = None \<longrightarrow> format_frequency (PStr s) bfo md = Inr (s @ '' (raw)''))
       \<and> format_frequency PNone bfo md = Inr ''None (raw)''
       \<and> (upper mode \<in> set [''USB'', ''LSB'', ''SSB''] \<and> 2 ^ 1024 - 2 ^ 970 \<le> \<bar>k * 1000 + b\<bar>
            \<and> \<bar>k\<bar> < 10 ^ int_max_str_digits \<longrightarrow>
            format_frequency (PInt k) (PInt b) (PStr mode) = Inr (decimal k @ '' (raw)''))
       \<and> (upper mode \<notin> set [''USB'', ''LSB'', ''SSB''] \<and> 2 ^ 1024 - 2 ^ 970 \<le> \<bar>k\<bar>
            \<and> \<bar>k\<bar> < 10 ^ int_max_str_digits \<longrightarrow>
            format_frequency (PInt k) (PInt b) (PStr mode) = Inr (decimal k @ '' (raw)''))
       \<and> (upper mode \<in> set [''USB'', ''LSB'', ''SSB''] \<and> 2 ^ 1024 - 2 ^ 970 \<le> \<bar>k * 1000 + b\<bar>
            \<and> 10 ^ int_max_str_digits \<le> \<bar>k\<bar> \<longrightarrow>
            format_frequency (PInt k) (PInt b) (PStr mode) = Inl str_limit_error)
       \<and> (upper mode \<notin> set [''USB'', ''LSB'', ''SSB''] \<and> 10 ^ int_max_str_digits \<le> \<bar>k\<bar> \<longrightarrow>
            format_frequency (PInt k) (PInt b) (PStr mode) = Inl str_limit_error)"
proof (intro conjI impI)
  assume "upper mode \<in> set [''USB'', ''LSB'', ''SSB''] \<and> \<bar>k * 1000 + b\<bar> < 2 ^ 52"
  then show "format_frequency (PInt k) (PInt b) (PStr mode)
      = Inr (fixed_str (k * 1000 + b < 0) 6 (nat \<bar>k * 1000 + b\<bar>) @ '' MHz'')"
    using format_exact [of "k * 1000 + b" 6]
    by (simp add: format_frequency_def format_frequency_try_def float_of_int_small)
next
  assume a: "upper mode = ''FM'' \<and> \<bar>k\<bar> < 2 ^ 52"
  then obtain m where "format_f 2 (fdiv (Finite (of_int k)) 1000) = fixed_str (k < 0) 2 m"
      "\<bar>10 * int m - \<bar>k\<bar>\<bar> \<le> 5"
    using format_two_decimals [of k] by blast
  with a show "\<exists>m. format_frequency (PInt k) (PInt b) (PStr mode)
        = Inr (fixed_str (k < 0) 2 m @ '' MHz'')
      \<and> \<bar>10 * int m - \<bar>k\<bar>\<bar> \<le> 5"
    by (auto simp: format_frequency_def format_frequency_try_def float_of_int_small)
next
  assume a: "upper mode = ''AM'' \<and> k < 1000 \<and> \<bar>k\<bar> < 2 ^ 1024 - 2 ^ 970"
  then obtain x where "float_of_int k = Inr x" using float_of_int_convertible [of k] by blast
  moreover from a have "\<bar>k\<bar> < 2 ^ 1024" by simp
  then have "str_int k = Inr (decimal k)" by (rule str_int_convertible)
  ultimately show "format_frequency (PInt k) (PInt b) (PStr mode) = Inr (decimal k @ '' kHz'')"
    using a by (simp add: format_frequency_def format_frequency_try_def)
next
  assume a: "upper mode = ''AM'' \<and> 1000 \<le> k \<and> k < 2 ^ 52"
  then have "\<bar>k\<bar> < 2 ^ 52" by simp
  with a show "format_frequency (PInt k) (PInt b) (PStr mode)
      = Inr (fixed_str False 3 (nat k) @ '' MHz'')"
    using format_exact [of k 3]
    by (simp add: format_frequency_def format_frequency_try_def float_of_int_small)
next
  assume "upper mode \<notin> set [''USB'', ''LSB'', ''SSB'', ''FM'', ''AM''] \<and> \<bar>k\<bar> < 2 ^ 52"
  then show "format_frequency (PInt k) (PInt b) (PStr mode)
      = Inr (fixed_str (k < 0) 3 (nat \<bar>k\<bar>) @ '' MHz'')"
    using format_exact [of k 3]
    by (simp add: format_frequency_def format_frequency_try_def float_of_int_small)
next
  assume "py_int s = None"
  then show "format_frequency (PStr s) bfo md = Inr (s @ '' (raw)'')"
    by (simp add: format_frequency_def format_frequency_try_def split: sum.splits)
next
  show "format_frequency PNone bfo md = Inr ''None (raw)''"
    by (simp add: format_frequency_def format_frequency_try_def split: sum.splits)
next
  assume a: "upper mode \<in> set [''USB'', ''LSB'', ''SSB''] \<and> 2 ^ 1024 - 2 ^ 970 \<le> \<bar>k * 1000 + b\<bar>
    \<and> \<bar>k\<bar> < 10 ^ int_max_str_digits"
  then obtain e where "float_of_int (k * 1000 + b) = Inl e"
    using float_of_int_overflow [of "k * 1000 + b"] by blast
  with a show "format_frequency (PInt k) (PInt b) (PStr mode) = Inr (decimal k @ '' (raw)'')"
    by (simp add: format_frequency_def format_frequency_try_def str_int_small)
next
  assume a: "upper mode \<notin> set [''USB'', ''LSB'', ''SSB''] \<and> 2 ^ 1024 - 2 ^ 970 \<le> \<bar>k\<bar>
    \<and> \<bar>k\<bar> < 10 ^ int_max_str_digits"
  then obtain e where "float_of_int k = Inl e"
    using float_of_int_overflow [of k] by blast
  with a show "format_frequency (PInt k) (PInt b) (PStr mode) = Inr (decimal k @ '' (raw)'')"
    by (simp add: format_frequency_def format_frequency_try_def str_int_small)
next
  assume a: "upper mode \<in> set [''USB'', ''LSB'', ''SSB''] \<and> 2 ^ 1024 - 2 ^ 970 \<le> \<bar>k * 1000 + b\<bar>
    \<and> 10 ^ int_max_str_digits \<le> \<bar>k\<bar>"
  then obtain e where "float_of_int (k * 1000 + b) = Inl e"
    using float_of_int_overflow [of "k * 1000 + b"] by blast
  with a show "format_frequency (PInt k) (PInt b) (PStr mode) = Inl str_limit_error"
    by (simp add: format_frequency_def format_frequency_try_def str_int_refused)
next
  assume a: "upper mode \<notin> set [''USB'', ''LSB'', ''SSB''] \<and> 10 ^ int_max_str_digits \<le> \<bar>k\<bar>"
  then obtain e where "float_of_int k = Inl e"
    using float_of_int_overflow [OF beyond_digit_limit_overflows, of k] by blast
  with a show "format_frequency (PInt k) (PInt b) (PStr mode) = Inl str_limit_error"
    by (simp add: format_frequency_def format_frequency_try_def str_int_refused)
qed

theorem format_frequency_by_mode_witness:
  "format_frequency (PInt 7200) (PInt 0) (PStr ''usb'') = Inr ''7.200000 MHz''
   \<and> format_frequency (PInt 530) (PInt 0) (PStr ''Am'') = Inr ''530 kHz''
   \<and> format_frequency (PInt 1530) (PInt 0) (PStr ''Am'') = Inr ''1.530 MHz''
   \<and> format_frequency (PInt 10050) (PInt 0) (PStr ''cw'') = Inr ''10.050 MHz''
   \<and> format_frequency (PStr ''abc'') (PInt 0) (PStr ''FM'') = Inr ''abc (raw)''
   \<and> format_frequency (PInt (10 ^ int_max_str_digits)) (PInt 0) (PStr ''FM'') = Inl str_limit_error"
proof -
  have usb: "upper ''usb'' = ''USB''" by (simp add: char_eval)
  have am: "upper ''Am'' = ''AM''" by (simp add: char_eval)
  have cw: "upper ''cw'' = ''CW''" by (simp add: char_eval)
  have fm: "upper ''FM'' = ''FM''" by (simp add: char_eval)
  have s1: "fixed_str False 6 7200000 = ''7.200000''" by (simp add: char_eval)
  have s2: "decimal 530 = ''530''" by (simp add: char_eval)
  have s3: "fixed_str False 3 1530 = ''1.530''" by (simp add: char_eval)
  have s4: "fixed_str False 3 10050 = ''10.050''" by (simp add: char_eval)
  have s5: "py_int ''abc'' = None" by (simp add: text_eval)
  have a: "format_frequency (PInt 7200) (PInt 0) (PStr ''usb'') = Inr ''7.200000 MHz''"
    using format_frequency_by_mode [where mode = "''usb''" and k = 7200 and b = 0]
    by (simp add: usb s1)
  have b: "format_frequency (PInt 530) (PInt 0) (PStr ''Am'') = Inr ''530 kHz''"
    using format_frequency_by_mode [where mode = "''Am''" and k = 530 and b = 0]
    by (simp add: am s2)
  have c: "format_frequency (PInt 1530) (PInt 0) (PStr ''Am'') = Inr ''1.530 MHz''"
    using format_frequency_by_mode [where mode = "''Am''" and k = 1530 and b = 0]
    by (simp add: am s3)
  have d: "format_frequency (PInt 10050) (PInt 0) (PStr ''cw'') = Inr ''10.050 MHz''"
    using format_frequency_by_mode [where mode = "''cw''" and k = 10050 and b = 0]
    by (simp add: cw s4)
  have e: "format_frequency (PStr ''abc'') (PInt 0) (PStr ''FM'') = Inr ''abc (raw)''"
    using format_frequency_by_mode [where s = "''abc''" and bfo = "PInt 0" and md = "PStr ''FM''"]
    by (simp add: s5)
  have big: "(10::int) ^ int_max_str_digits \<le> \<bar>10 ^ int_max_str_digits\<bar>" by simp
  have f: "format_frequency (PInt (10 ^ int_max_str_digits)) (PInt 0) (PStr ''FM'')
      = Inl str_limit_error"
    using format_frequency_by_mode [where mode = "''FM''" and k = "10 ^ int_max_str_digits"
        and b = 0] big
    by (simp only: fm) simp
  from a b c d e f show ?thesis by simp
qed

text \<open>
  The claim C1 as stated, for every raw frequency, fails on an integer beyond the range
  of a float: the conversion raises \<^verbatim>\<open>OverflowError\<close> inside the \<^verbatim>\<open>try\<close> block, and the
  numeric raw value is shown unformatted.
\<close>

theorem huge_frequency_falls_back_counterexample:
  "int_of (PInt (10 ^ 306)) = Inr (10 ^ 306)
   \<and> format_frequency (PInt (10 ^ 306)) (PInt 0) (PStr ''USB'')
       = Inr (decimal (10 ^ 306) @ '' (raw)'')"
proof -
  have big: "(2::int) ^ 1024 - 2 ^ 970 \<le> \<bar>10 ^ 306 * 1000 + 0\<bar>" by simp
  have ov: "float_of_int (10 ^ 306 * 1000 + 0)
      = Inl (OverflowError ''int too large to convert to float'')"
    using big by (simp only: float_of_int_def if_True)
  have up: "upper ''USB'' = ''USB''" by (simp add: upper_def upper_char_def)
  have mem: "''USB'' \<in> set [''USB'', ''LSB'', ''SSB'']" by simp
  have "(10::int) ^ 306 < 10 ^ 4300" by (rule power_strict_increasing) simp_all
  then have "\<bar>10 ^ 306 :: int\<bar> < 10 ^ int_max_str_digits"
    by (simp only: int_max_str_digits_def power_abs abs_numeral)
  then have str: "str_int (10 ^ 306) = Inr (decimal (10 ^ 306))" by (rule str_int_small)
  have "format_frequency_try (PInt (10 ^ 306)) (PInt 0) (PStr ''USB'')
      = Inl (OverflowError ''int too large to convert to float'')"
    by (simp only: format_frequency_try_def mode_upper.simps up mem if_True int_of.simps ov
        sum.case)
  then have "format_frequency (PInt (10 ^ 306)) (PInt 0) (PStr ''USB'')
      = Inr (decimal (10 ^ 306) @ '' (raw)'')"
    by (simp only: format_frequency_def sum.case str_of.simps str)
  then show ?thesis by (simp only: int_of.simps simp_thms)
qed

end
